theory Spec2Isabelle
  imports Complex_Main "HOL-Library.Multiset"
begin

section \<open>Python values used by the services\<close>

text \<open>
  Identifiers (\<open>uuid.UUID\<close>) are abstracted to natural numbers and \<open>datetime\<close> values to
  integers (a count of clock units). A \<open>str\<close> is a list of characters; every \<open>char\<close> stands
  for one code point below 256, so \<open>length\<close> is Python's \<open>len\<close> on such strings.
\<close>

type_synonym uuid = nat
type_synonym datetime = int

text \<open>\<open>str.isspace\<close> on the code points below 256.\<close>

definition isspace :: "char \<Rightarrow> bool" where
  "isspace c = (c \<in> set [CHR 0x09, CHR 0x0A, CHR 0x0B, CHR 0x0C, CHR 0x0D,
                          CHR 0x1C, CHR 0x1D, CHR 0x1E, CHR 0x1F, CHR 0x20,
                          CHR 0x85, CHR 0xA0])"

text \<open>The characters removed by \<open>title.strip('"\'')\<close>: the double and the single quote.\<close>

definition isquote :: "char \<Rightarrow> bool" where
  "isquote c = (c = CHR 0x22 \<or> c = CHR 0x27)"

text \<open>\<open>s.strip(chars)\<close>: drop the leading and the trailing run of characters of the set.\<close>

definition strip_chars :: "(char \<Rightarrow> bool) \<Rightarrow> string \<Rightarrow> string" where
  "strip_chars P s = rev (dropWhile P (rev (dropWhile P s)))"

definition strip :: "string \<Rightarrow> string" where
  "strip s = strip_chars isspace s"

text \<open>
  \<open>s.split()\<close>: the maximal runs of non-whitespace characters, in order. The second
  argument is the word being read.
\<close>

fun split_from :: "string \<Rightarrow> string \<Rightarrow> string list" where
  "split_from w [] = (if w = [] then [] else [w])"
| "split_from w (c # cs) =
     (if isspace c then (if w = [] then split_from [] cs else w # split_from [] cs)
      else split_from (w @ [c]) cs)"

definition split :: "string \<Rightarrow> string list" where
  "split s = split_from [] s"

text \<open>\<open>" ".join(ws)\<close>.\<close>

fun join :: "string list \<Rightarrow> string" where
  "join [] = []"
| "join [w] = w"
| "join (w # v # ws) = w @ '' '' @ join (v # ws)"

text \<open>\<open>a or b\<close> on an optional string: \<open>None\<close> and the empty string are falsy.\<close>

definition or_else :: "string option \<Rightarrow> string \<Rightarrow> string" where
  "or_else a b = (case a of None \<Rightarrow> b | Some s \<Rightarrow> if s = [] then b else s)"

section \<open>Data model (app/db/models.py)\<close>

datatype MessageRole = USER | ASSISTANT

text \<open>
  The columns of the three tables. Field \<open>u_id\<close> is \<open>User.id\<close>, \<open>c_user_id\<close> is
  \<open>Chat.user_id\<close>, \<open>m_created_at\<close> is \<open>Message.created_at\<close>, and so on: the prefix
  names the table.
\<close>

record user =
  u_id :: uuid
  u_email :: string
  u_phone :: "string option"
  u_hashed_password :: string

record chat =
  c_id :: uuid
  c_user_id :: uuid
  c_title :: string
  c_message_count :: nat
  c_created_at :: datetime
  c_updated_at :: datetime

record message =
  m_id :: uuid
  m_chat_id :: uuid
  m_role :: MessageRole
  m_content :: string
  m_created_at :: datetime

text \<open>The persistent store: each table is the list of its rows in insertion order.\<close>

record database =
  users :: "user list"
  chats :: "chat list"
  messages :: "message list"

text \<open>
  The store is a PostgreSQL database (app/db/models.py takes its \<open>UUID\<close> columns from
  \<open>sqlalchemy.dialects.postgresql\<close>, and app/core/config.py rewrites \<open>postgres://\<close>
  addresses). A table there has fewer than \<open>2 ^ 32\<close> blocks and a block holds fewer
  than \<open>2 ^ 11\<close> rows, so every table of a database that exists has fewer than
  \<open>2 ^ 43\<close> rows.
\<close>

definition storable :: "database \<Rightarrow> bool" where
  "storable d =
     (length (users d) < 2 ^ 43 \<and> length (chats d) < 2 ^ 43 \<and> length (messages d) < 2 ^ 43)"

text \<open>
  What a request can fail with. \<open>HTTPException\<close> carries its status code and detail;
  \<open>RequestValidationError\<close> and \<open>SQLAlchemyError\<close> are turned into responses by the
  handlers of app/main.py.
\<close>

datatype failure =
    HTTPException nat string
  | RequestValidationError
  | SQLAlchemyError
  | ZeroDivisionError
  | OverflowError

text \<open>
  The status of the response: the handlers of app/main.py answer 422 and 500, and an
  exception no handler knows is the framework's 500.
\<close>

fun status_code :: "failure \<Rightarrow> nat" where
  "status_code (HTTPException s d) = s"
| "status_code RequestValidationError = 422"
| "status_code SQLAlchemyError = 500"
| "status_code ZeroDivisionError = 500"
| "status_code OverflowError = 500"

section \<open>Session (app/db/session.py)\<close>

text \<open>
  A session holds the persisted database and the view of its open transaction.
  \<open>db.add\<close> followed by a flush, and attribute updates of loaded rows, change the
  transaction's view only; \<open>db.commit\<close> persists the view; \<open>db.close\<close>, which
  \<open>get_db\<close> runs in its \<open>finally\<close> block, drops whatever was not committed.
\<close>

record session =
  persisted :: database
  pending :: database

definition SessionLocal :: "database \<Rightarrow> session" where
  "SessionLocal d = \<lparr>persisted = d, pending = d\<rparr>"

definition close :: "session \<Rightarrow> database" where
  "close s = persisted s"

text \<open>
  Writing a string to a column \<open>String(n)\<close>, a \<open>VARCHAR(n)\<close>: a value of at most \<open>n\<close>
  characters is stored as it is; a longer value is cut to its first \<open>n\<close> characters when
  every character beyond them is a space, and is refused otherwise (\<open>None\<close>).
\<close>

definition varchar :: "nat \<Rightarrow> string \<Rightarrow> string option" where
  "varchar n s =
     (if length s \<le> n then Some s
      else if list_all (\<lambda>c. c = CHR 0x20) (drop n s) then Some (take n s)
      else None)"

text \<open>
  \<open>db.commit()\<close> makes the transaction's view the persisted database, unless the
  database fails (the environment's \<open>ok = False\<close>).
\<close>

definition commit :: "bool \<Rightarrow> session \<Rightarrow> failure + session" where
  "commit ok s = (if ok then Inr (s\<lparr>persisted := pending s\<rparr>) else Inl SQLAlchemyError)"

text \<open>
  End of a request: the session is closed whatever the handler returned. A handler that
  raised leaves behind the session it started with, so nothing it flushed is kept.
\<close>

definition finish :: "session \<Rightarrow> failure + (session \<times> 'a) \<Rightarrow> database \<times> (failure + 'a)" where
  "finish s0 r = (case r of Inl e \<Rightarrow> (close s0, Inl e) | Inr (s, x) \<Rightarrow> (close s, Inr x))"

text \<open>
  \<open>query.order_by(column)\<close>: the rows come sorted by the column. The query names no
  second column, so the order of rows that agree on the column is whatever the execution
  makes of it, and may differ from one execution of the same query to the next. A
  \<open>scan\<close> is that choice: the position at which an execution meets each row.
\<close>

type_synonym 'a scan = "'a \<Rightarrow> nat"

definition order_by :: "('a \<Rightarrow> 'k :: linorder) \<Rightarrow> 'a scan \<Rightarrow> 'a list \<Rightarrow> 'a list" where
  "order_by col sc xs = sort_key col (sort_key sc xs)"

text \<open>
  \<open>query.offset(off).limit(n)\<close> on the rows a query yields. \<open>OFFSET\<close> and \<open>LIMIT\<close>
  are \<open>bigint\<close> values: the database rejects a negative one and one beyond
  \<open>2 ^ 63 - 1\<close>.
\<close>

definition offset_limit :: "int \<Rightarrow> int \<Rightarrow> 'a list \<Rightarrow> failure + 'a list" where
  "offset_limit off n xs =
     (if off < 0 \<or> n < 0 \<or> 2 ^ 63 \<le> off \<or> 2 ^ 63 \<le> n then Inl SQLAlchemyError
      else Inr (take (nat n) (drop (nat off) xs)))"

text \<open>
  What the environment supplies to one request: whether the database accepts the commit,
  how it meets the rows of the request's ordered query, by how much the clock advances
  before each reading of \<open>datetime.utcnow\<close> within the request, the values of
  \<open>uuid.uuid4()\<close>, and the two prompt constants of app/core/prompts.py (the title prompt
  as the text before and after its placeholder).
\<close>

record env =
  commit_ok :: bool
  scan_messages :: "message scan"
  tick1 :: nat
  tick2 :: nat
  tick3 :: nat
  uuid4_1 :: uuid
  uuid4_2 :: uuid
  NUPAT_AI_SYSTEM_PROMPT :: string
  CHAT_TITLE_GENERATION_PROMPT :: "string \<times> string"

definition utcnow :: "nat \<Rightarrow> datetime \<Rightarrow> datetime" where
  "utcnow tick clock = clock + int tick"

section \<open>Chat service (app/services/chat_service.py)\<close>

text \<open>
  The body of \<open>POST /chats\<close>: the title key may be missing, \<open>null\<close> or a string;
  \<open>ChatCreate\<close> gives a missing key the default \<open>"New Chat"\<close>.
\<close>

datatype title_field = Absent | Null | Str string

fun ChatCreate :: "title_field \<Rightarrow> string option" where
  "ChatCreate Absent = Some ''New Chat''"
| "ChatCreate Null = None"
| "ChatCreate (Str s) = Some s"

text \<open>\<open>ChatUpdate\<close>: the title has between 1 and 200 characters.\<close>

definition ChatUpdate :: "string \<Rightarrow> failure + string" where
  "ChatUpdate s = (if 1 \<le> length s \<and> length s \<le> 200 then Inr s else Inl RequestValidationError)"

text \<open>
  \<open>db.add(chat)\<close> with the \<open>INSERT\<close> of its flush: the title goes through the column
  \<open>String(200)\<close>. The second component is the row as stored, which \<open>db.refresh\<close> reads
  back.
\<close>

definition add_chat :: "chat \<Rightarrow> session \<Rightarrow> failure + (session \<times> chat)" where
  "add_chat c s =
     (case varchar 200 (c_title c) of
        None \<Rightarrow> Inl SQLAlchemyError
      | Some title \<Rightarrow>
          (let row = c\<lparr>c_title := title\<rparr>
           in Inr (s\<lparr>pending := (pending s)\<lparr>chats := chats (pending s) @ [row]\<rparr>\<rparr>, row)))"

definition add_message :: "message \<Rightarrow> session \<Rightarrow> session" where
  "add_message m s = s\<lparr>pending := (pending s)\<lparr>messages := messages (pending s) @ [m]\<rparr>\<rparr>"

text \<open>
  Flushing a loaded chat whose attributes were assigned: the row is rewritten, and
  \<open>onupdate=datetime.utcnow\<close> stamps it, only when some attribute really changed; the
  \<open>UPDATE\<close> carries the changed columns, so a changed title goes through the column
  \<open>String(200)\<close>. The second component is the row as stored, which \<open>db.refresh\<close> reads
  back.
\<close>

definition flush_chat ::
  "chat \<Rightarrow> chat \<Rightarrow> datetime \<Rightarrow> session \<Rightarrow> failure + (session \<times> chat)" where
  "flush_chat old new t s =
     (if new = old then Inr (s, old)
      else case (if c_title new = c_title old then Some (c_title new)
                 else varchar 200 (c_title new)) of
             None \<Rightarrow> Inl SQLAlchemyError
           | Some title \<Rightarrow>
               (let row = new\<lparr>c_title := title, c_updated_at := t\<rparr>
                in Inr (s\<lparr>pending := (pending s)\<lparr>chats :=
                           map (\<lambda>c. if c_id c = c_id old then row else c)
                               (chats (pending s))\<rparr>\<rparr>,
                        row)))"

text \<open>\<open>db.delete(chat)\<close>: the relationship cascades to the chat's messages.\<close>

definition delete_row :: "chat \<Rightarrow> session \<Rightarrow> session" where
  "delete_row c s =
     s\<lparr>pending := (pending s)\<lparr>
          chats := filter (\<lambda>x. c_id x \<noteq> c_id c) (chats (pending s)),
          messages := filter (\<lambda>m. m_chat_id m \<noteq> c_id c) (messages (pending s))\<rparr>\<rparr>"

definition ChatService_create_chat ::
  "env \<Rightarrow> datetime \<Rightarrow> session \<Rightarrow> user \<Rightarrow> string option \<Rightarrow> failure + (session \<times> chat)" where
  "ChatService_create_chat e now db usr title =
     (let t1 = utcnow (tick1 e) now;
          t2 = utcnow (tick2 e) t1;
          new_chat = \<lparr>c_id = uuid4_1 e, c_user_id = u_id usr,
                      c_title = or_else title ''New Chat'', c_message_count = 0,
                      c_created_at = t1, c_updated_at = t2\<rparr>
      in case add_chat new_chat db of
           Inl err \<Rightarrow> Inl err
         | Inr (db1, row) \<Rightarrow>
             (case commit (commit_ok e) db1 of
                Inl err \<Rightarrow> Inl err
              | Inr db' \<Rightarrow> Inr (db', row)))"

text \<open>
  The chats of a user ordered by \<open>Chat.updated_at.desc()\<close>, and the messages of a chat
  ordered by \<open>Message.created_at.asc()\<close>, as one execution of the query yields them.
\<close>

definition chats_of :: "session \<Rightarrow> uuid \<Rightarrow> chat scan \<Rightarrow> chat list" where
  "chats_of db uid sc =
     order_by (\<lambda>c. - c_updated_at c) sc (filter (\<lambda>c. c_user_id c = uid) (chats (pending db)))"

definition messages_of :: "session \<Rightarrow> uuid \<Rightarrow> message scan \<Rightarrow> message list" where
  "messages_of db cid sc =
     order_by m_created_at sc (filter (\<lambda>m. m_chat_id m = cid) (messages (pending db)))"

text \<open>The first argument of a paginated query is the scan of its execution.\<close>

definition ChatService_get_user_chats ::
  "chat scan \<Rightarrow> session \<Rightarrow> user \<Rightarrow> int \<Rightarrow> int \<Rightarrow> failure + (chat list \<times> int)" where
  "ChatService_get_user_chats sc db usr page page_size =
     (let total = int (length (filter (\<lambda>c. c_user_id c = u_id usr) (chats (pending db))));
          offset = (page - 1) * page_size
      in case offset_limit offset page_size (chats_of db (u_id usr) sc) of
           Inl err \<Rightarrow> Inl err
         | Inr rows \<Rightarrow> Inr (rows, total))"

definition ChatService_get_chat_by_id :: "session \<Rightarrow> uuid \<Rightarrow> user \<Rightarrow> failure + chat" where
  "ChatService_get_chat_by_id db chat_id usr =
     (case find (\<lambda>c. c_id c = chat_id) (chats (pending db)) of
        None \<Rightarrow> Inl (HTTPException 404 ''Chat not found'')
      | Some c \<Rightarrow>
          if c_user_id c \<noteq> u_id usr
          then Inl (HTTPException 403 ''Not authorized to access this chat'')
          else Inr c)"

definition ChatService_update_chat_title ::
  "env \<Rightarrow> datetime \<Rightarrow> session \<Rightarrow> uuid \<Rightarrow> user \<Rightarrow> string \<Rightarrow> failure + (session \<times> chat)" where
  "ChatService_update_chat_title e now db chat_id usr title =
     (case ChatService_get_chat_by_id db chat_id usr of
        Inl err \<Rightarrow> Inl err
      | Inr c \<Rightarrow>
          (let c' = c\<lparr>c_title := title\<rparr>;
               t = utcnow (tick1 e) now
           in case flush_chat c c' t db of
                Inl err \<Rightarrow> Inl err
              | Inr (db1, row) \<Rightarrow>
                  (case commit (commit_ok e) db1 of
                     Inl err \<Rightarrow> Inl err
                   | Inr db' \<Rightarrow> Inr (db', row))))"

definition ChatService_delete_chat ::
  "env \<Rightarrow> session \<Rightarrow> uuid \<Rightarrow> user \<Rightarrow> failure + (session \<times> unit)" where
  "ChatService_delete_chat e db chat_id usr =
     (case ChatService_get_chat_by_id db chat_id usr of
        Inl err \<Rightarrow> Inl err
      | Inr c \<Rightarrow>
          (case commit (commit_ok e) (delete_row c db) of
             Inl err \<Rightarrow> Inl err
           | Inr db' \<Rightarrow> Inr (db', ())))"

section \<open>Identity resolution (app/api/deps.py, app/services/auth_service.py)\<close>

text \<open>
  A bearer token as the server sees it: either not a token at all, or a signed token with
  its claims. The claims are the payload's string-valued entries.
\<close>

datatype token =
    Malformed
  | Jwt (signature_valid: bool) (expired: bool) (claims: "(string \<times> string) list")

text \<open>
  Modelled from the spec: \<open>decode_access_token\<close> of app/core/security.py, which is not
  among the sources. It yields the payload of a well-formed token whose signature is
  valid and which has not expired, and \<open>None\<close> for every other token.
\<close>

fun decode_access_token :: "token \<Rightarrow> (string \<times> string) list option" where
  "decode_access_token Malformed = None"
| "decode_access_token (Jwt sig_ok expd cl) = (if sig_ok \<and> \<not> expd then Some cl else None)"

definition AuthService_get_user_by_id :: "session \<Rightarrow> uuid \<Rightarrow> failure + user" where
  "AuthService_get_user_by_id db user_id =
     (case find (\<lambda>u. u_id u = user_id) (users (pending db)) of
        None \<Rightarrow> Inl (HTTPException 404 ''User not found'')
      | Some u \<Rightarrow> Inr u)"

text \<open>
  \<open>get_current_user\<close>. The first argument is the standard library's \<open>uuid.UUID\<close>
  constructor: \<open>None\<close> where it raises \<open>ValueError\<close>.
\<close>

definition get_current_user ::
  "(string \<Rightarrow> uuid option) \<Rightarrow> session \<Rightarrow> token \<Rightarrow> failure + user" where
  "get_current_user UUID db credentials =
     (case decode_access_token credentials of
        None \<Rightarrow> Inl (HTTPException 401 ''Could not validate credentials'')
      | Some payload \<Rightarrow>
          (case map_of payload ''sub'' of
             None \<Rightarrow> Inl (HTTPException 401 ''Invalid token payload'')
           | Some user_id_str \<Rightarrow>
               (case UUID user_id_str of
                  None \<Rightarrow> Inl (HTTPException 401 ''Invalid user ID in token'')
                | Some user_id \<Rightarrow> AuthService_get_user_by_id db user_id)))"

section \<open>AI service (app/services/ai_service.py)\<close>

datatype api_role = Role_system | Role_user | Role_assistant

type_synonym api_message = "api_role \<times> string"

text \<open>One call of \<open>client.chat.completions.create\<close>: the messages and the generation parameters.\<close>

record request =
  req_messages :: "api_message list"
  req_temperature :: rat
  req_max_tokens :: nat
  req_top_p :: "rat option"

text \<open>
  What the call does: it raises (with the text of the exception; an empty list of choices
  is such a case), or it returns a first choice whose content is a string or \<open>None\<close>.
\<close>

datatype completion = Raised string | Content "string option"

text \<open>The provider: how it answers each request, and the requests it has received.\<close>

record provider =
  respond :: "request \<Rightarrow> completion"
  received :: "request list"

definition create :: "provider \<Rightarrow> request \<Rightarrow> completion \<times> provider" where
  "create p r = (respond p r, p\<lparr>received := received p @ [r]\<rparr>)"

definition api_role_of :: "MessageRole \<Rightarrow> api_role" where
  "api_role_of r = (if r = USER then Role_user else Role_assistant)"

text \<open>\<open>chat_history[-10:] if len(chat_history) > 10 else chat_history\<close>.\<close>

definition recent_messages :: "message list \<Rightarrow> message list" where
  "recent_messages chat_history =
     (if length chat_history > 10 then drop (length chat_history - 10) chat_history
      else chat_history)"

text \<open>The list \<open>messages\<close> that \<open>generate_response\<close> builds before the call.\<close>

definition response_messages :: "env \<Rightarrow> string \<Rightarrow> message list \<Rightarrow> api_message list" where
  "response_messages e user_message chat_history =
     [(Role_system, NUPAT_AI_SYSTEM_PROMPT e)]
     @ (if chat_history \<noteq> []
        then map (\<lambda>msg. (api_role_of (m_role msg), m_content msg)) (recent_messages chat_history)
        else [])
     @ [(Role_user, user_message)]"

definition AIService_generate_response ::
  "env \<Rightarrow> provider \<Rightarrow> string \<Rightarrow> message list \<Rightarrow> (failure + string) \<times> provider" where
  "AIService_generate_response e p user_message chat_history =
     (let (chat_completion, p') =
            create p \<lparr>req_messages = response_messages e user_message chat_history,
                      req_temperature = 7 / 10, req_max_tokens = 2048,
                      req_top_p = Some (95 / 100)\<rparr>
      in (case chat_completion of
            Raised msg \<Rightarrow> Inl (HTTPException 500 (''AI service error: '' @ msg))
          | Content None \<Rightarrow>
              Inl (HTTPException 500 ''AI service error: 500: Failed to generate AI response'')
          | Content (Some response_text) \<Rightarrow>
              if response_text = []
              then Inl (HTTPException 500 ''AI service error: 500: Failed to generate AI response'')
              else Inr (strip response_text),
          p'))"

definition get_title_generation_prompt :: "env \<Rightarrow> string \<Rightarrow> string" where
  "get_title_generation_prompt e user_message =
     fst (CHAT_TITLE_GENERATION_PROMPT e) @ user_message @ snd (CHAT_TITLE_GENERATION_PROMPT e)"

text \<open>The cleaning of a returned title, after \<open>strip()\<close> has left it non-empty.\<close>

definition clean_title :: "string \<Rightarrow> string" where
  "clean_title t =
     (let title = strip_chars isquote t;
          ws = split title;
          title = (if length ws > 6 then join (take 6 ws) else title);
          title = (if length title > 200 then take 197 title @ ''...'' else title)
      in title)"

definition AIService_generate_chat_title :: "env \<Rightarrow> provider \<Rightarrow> string \<Rightarrow> string \<times> provider" where
  "AIService_generate_chat_title e p first_message =
     (let (chat_completion, p') =
            create p \<lparr>req_messages =
                        [(Role_system,
                          ''You are a helpful assistant that creates short, concise chat titles.''),
                         (Role_user, get_title_generation_prompt e first_message)],
                      req_temperature = 1 / 2, req_max_tokens = 20, req_top_p = None\<rparr>
      in (case chat_completion of
            Raised msg \<Rightarrow> ''New Chat''
          | Content None \<Rightarrow> ''New Chat''
          | Content (Some c) \<Rightarrow>
              (let title = strip c in if title = [] then ''New Chat'' else clean_title title),
          p'))"

section \<open>Message service (app/services/message_service.py)\<close>

text \<open>\<open>MessageCreate\<close>: the content has at least one character.\<close>

definition MessageCreate :: "string \<Rightarrow> failure + string" where
  "MessageCreate s = (if 1 \<le> length s then Inr s else Inl RequestValidationError)"

definition MessageService_get_chat_messages ::
  "message scan \<Rightarrow> session \<Rightarrow> chat \<Rightarrow> int \<Rightarrow> int \<Rightarrow> failure + (message list \<times> int)" where
  "MessageService_get_chat_messages sc db c page page_size =
     (let total = int (length (filter (\<lambda>m. m_chat_id m = c_id c) (messages (pending db))));
          offset = (page - 1) * page_size
      in case offset_limit offset page_size (messages_of db (c_id c) sc) of
           Inl err \<Rightarrow> Inl err
         | Inr rows \<Rightarrow> Inr (rows, total))"

text \<open>
  What \<open>create_message_and_respond\<close> returns, together with the chat object it updated
  (the endpoint reads the title and the count from it).
\<close>

record sent =
  sent_user_message :: message
  sent_assistant_message :: message
  sent_title_generated :: bool
  sent_chat :: chat

text \<open>
  The clock is read when a row is written: for the user message at \<open>db.flush()\<close>, for
  the chat and then the assistant message when \<open>db.commit()\<close> flushes them. The chat
  returned is the row that \<open>db.refresh(chat)\<close> reads back.
\<close>

definition MessageService_create_message_and_respond ::
  "env \<Rightarrow> datetime \<Rightarrow> provider \<Rightarrow> session \<Rightarrow> chat \<Rightarrow> string
     \<Rightarrow> (failure + (session \<times> sent)) \<times> provider" where
  "MessageService_create_message_and_respond e now p db c content =
     (let existing_messages = messages_of db (c_id c) (scan_messages e);
          is_first_message = (length existing_messages = 0);
          t1 = utcnow (tick1 e) now;
          user_msg = \<lparr>m_id = uuid4_1 e, m_chat_id = c_id c, m_role = USER,
                      m_content = content, m_created_at = t1\<rparr>;
          db1 = add_message user_msg db;
          (ai_response, p1) = AIService_generate_response e p content existing_messages
      in case ai_response of
           Inl err \<Rightarrow> (Inl err, p1)
         | Inr ai_response_text \<Rightarrow>
             (let c1 = c\<lparr>c_message_count := length existing_messages + 2\<rparr>;
                  (new_title, p2) =
                     (if is_first_message then AIService_generate_chat_title e p1 content
                      else ([], p1));
                  retitle = (is_first_message \<and> new_title \<noteq> [] \<and> new_title \<noteq> ''New Chat'');
                  c2 = (if retitle then c1\<lparr>c_title := new_title\<rparr> else c1);
                  t2 = utcnow (tick2 e) t1;
                  t3 = utcnow (tick3 e) t2;
                  assistant_msg = \<lparr>m_id = uuid4_2 e, m_chat_id = c_id c, m_role = ASSISTANT,
                                   m_content = ai_response_text, m_created_at = t3\<rparr>
              in case flush_chat c c2 t2 db1 of
                   Inl err \<Rightarrow> (Inl err, p2)
                 | Inr (db2, row) \<Rightarrow>
                     (case commit (commit_ok e) (add_message assistant_msg db2) of
                        Inl err \<Rightarrow> (Inl err, p2)
                      | Inr db3 \<Rightarrow>
                          (Inr (db3, \<lparr>sent_user_message = user_msg,
                                      sent_assistant_message = assistant_msg,
                                      sent_title_generated = retitle,
                                      sent_chat = row\<rparr>),
                           p2))))"

section \<open>Page counts (\<open>math.ceil(total / page_size)\<close>)\<close>

text \<open>
  Python's \<open>/\<close> on two integers yields the binary64 value nearest to the exact quotient
  (ties to the even significand), raises \<open>ZeroDivisionError\<close> for a zero divisor and
  \<open>OverflowError\<close> when the quotient is beyond the range of binary64. A finite double is
  a rational number, and \<open>math.ceil\<close> of it is exact.
\<close>

text \<open>\<open>int.bit_length\<close>.\<close>

fun bit_length :: "nat \<Rightarrow> nat" where
  "bit_length n = (if n = 0 then 0 else Suc (bit_length (n div 2)))"

declare bit_length.simps [simp del]

definition pow2 :: "int \<Rightarrow> rat" where
  "pow2 k = (if 0 \<le> k then 2 ^ nat k else 1 / 2 ^ nat (- k))"

definition round_half_even :: "rat \<Rightarrow> int" where
  "round_half_even x =
     (let n = \<lfloor>x\<rfloor>; r = x - of_int n
      in if r < 1 / 2 then n else if 1 / 2 < r then n + 1 else if even n then n else n + 1)"

text \<open>The exponent \<open>k\<close> with \<open>2 ^ k \<le> a / b < 2 ^ (k + 1)\<close>, for positive \<open>a\<close> and \<open>b\<close>.\<close>

definition binary_exponent :: "nat \<Rightarrow> nat \<Rightarrow> int" where
  "binary_exponent a b =
     (let d = int (bit_length a) - int (bit_length b)
      in if of_nat b * pow2 d \<le> (of_nat a :: rat) then d else d - 1)"

text \<open>
  The double nearest to \<open>a / b\<close> for positive \<open>a\<close> and \<open>b\<close>: a multiple of the unit in the
  last place, which is \<open>2 ^ (k - 52)\<close> for a normal number and \<open>2 ^ - 1074\<close> below that.
\<close>

definition nearest_double :: "nat \<Rightarrow> nat \<Rightarrow> rat" where
  "nearest_double a b =
     (let ulp = pow2 (max (binary_exponent a b - 52) (- 1074))
      in of_int (round_half_even (of_nat a / of_nat b / ulp)) * ulp)"

definition truediv :: "int \<Rightarrow> int \<Rightarrow> failure + rat" where
  "truediv a b =
     (if b = 0 then Inl ZeroDivisionError
      else if a = 0 then Inr 0
      else (let x = nearest_double (nat \<bar>a\<bar>) (nat \<bar>b\<bar>)
            in if pow2 1024 \<le> x then Inl OverflowError
               else Inr (if (a < 0) = (b < 0) then x else - x)))"

definition math_ceil :: "rat \<Rightarrow> int" where
  "math_ceil x = \<lceil>x\<rceil>"

text \<open>\<open>math.ceil(total / page_size) if total > 0 else 0\<close>, as both list endpoints compute it.\<close>

definition total_pages :: "int \<Rightarrow> int \<Rightarrow> failure + int" where
  "total_pages n sz =
     (if n > 0
      then (case truediv n sz of Inl err \<Rightarrow> Inl err | Inr q \<Rightarrow> Inr (math_ceil q))
      else Inr 0)"

section \<open>Endpoints (app/api/v1/chats.py, app/api/v1/messages.py)\<close>

text \<open>
  Every endpoint receives the user that \<open>get_current_user\<close> resolved. The request is
  validated before the handler runs; the handler opens a session on the database, and the
  session is closed when it is done. An endpoint that writes returns the database it
  leaves behind. An endpoint that only reads takes the scan of its ordered query as its
  first argument.
\<close>

text \<open>\<open>ChatListResponse\<close> and \<open>MessageListResponse\<close>.\<close>

record 'a ListResponse =
  lr_items :: "'a list"
  lr_total :: int
  lr_page :: int
  lr_page_size :: int
  lr_total_pages :: int

text \<open>\<open>Query(1, ge=1)\<close> and \<open>Query(.., ge=1, le=100)\<close>.\<close>

definition valid_paging :: "int \<Rightarrow> int \<Rightarrow> bool" where
  "valid_paging pg sz = (1 \<le> pg \<and> 1 \<le> sz \<and> sz \<le> 100)"

definition ListResponse_of ::
  "int \<Rightarrow> int \<Rightarrow> failure + ('a list \<times> int) \<Rightarrow> failure + 'a ListResponse" where
  "ListResponse_of pg sz r =
     (case r of
        Inl err \<Rightarrow> Inl err
      | Inr (rows, n) \<Rightarrow>
          (case total_pages n sz of
             Inl err \<Rightarrow> Inl err
           | Inr tp \<Rightarrow> Inr \<lparr>lr_items = rows, lr_total = n, lr_page = pg, lr_page_size = sz,
                         lr_total_pages = tp\<rparr>))"

definition create_chat ::
  "env \<Rightarrow> datetime \<Rightarrow> database \<Rightarrow> title_field \<Rightarrow> user \<Rightarrow> database \<times> (failure + chat)" where
  "create_chat e now d chat_data current_user =
     (let db = SessionLocal d
      in finish db (ChatService_create_chat e now db current_user (ChatCreate chat_data)))"

definition get_user_chats ::
  "chat scan \<Rightarrow> database \<Rightarrow> int \<Rightarrow> int \<Rightarrow> user \<Rightarrow> failure + chat ListResponse" where
  "get_user_chats sc d pg sz current_user =
     (if \<not> valid_paging pg sz then Inl RequestValidationError
      else ListResponse_of pg sz
             (ChatService_get_user_chats sc (SessionLocal d) current_user pg sz))"

text \<open>
  \<open>ChatWithMessages.model_validate(chat)\<close> reads \<open>chat.messages\<close>, the relationship
  declared with \<open>order_by="Message.created_at"\<close>.
\<close>

definition get_chat_with_messages ::
  "message scan \<Rightarrow> database \<Rightarrow> uuid \<Rightarrow> user \<Rightarrow> failure + (chat \<times> message list)" where
  "get_chat_with_messages sc d chat_id current_user =
     (let db = SessionLocal d
      in case ChatService_get_chat_by_id db chat_id current_user of
           Inl err \<Rightarrow> Inl err
         | Inr c \<Rightarrow> Inr (c, messages_of db (c_id c) sc))"

definition update_chat_title ::
  "env \<Rightarrow> datetime \<Rightarrow> database \<Rightarrow> uuid \<Rightarrow> string \<Rightarrow> user \<Rightarrow> database \<times> (failure + chat)" where
  "update_chat_title e now d chat_id update_data current_user =
     (case ChatUpdate update_data of
        Inl err \<Rightarrow> (d, Inl err)
      | Inr title \<Rightarrow>
          (let db = SessionLocal d
           in finish db (ChatService_update_chat_title e now db chat_id current_user title)))"

definition delete_chat ::
  "env \<Rightarrow> database \<Rightarrow> uuid \<Rightarrow> user \<Rightarrow> database \<times> (failure + unit)" where
  "delete_chat e d chat_id current_user =
     (let db = SessionLocal d
      in finish db (ChatService_delete_chat e db chat_id current_user))"

definition send_message ::
  "env \<Rightarrow> datetime \<Rightarrow> provider \<Rightarrow> database \<Rightarrow> uuid \<Rightarrow> string \<Rightarrow> user
     \<Rightarrow> (database \<times> (failure + sent)) \<times> provider" where
  "send_message e now p d chat_id message_data current_user =
     (case MessageCreate message_data of
        Inl err \<Rightarrow> ((d, Inl err), p)
      | Inr content \<Rightarrow>
          (let db = SessionLocal d
           in case ChatService_get_chat_by_id db chat_id current_user of
                Inl err \<Rightarrow> (finish db (Inl err), p)
              | Inr c \<Rightarrow>
                  (let (r, p') = MessageService_create_message_and_respond e now p db c content
                   in (finish db r, p'))))"

definition get_chat_messages ::
  "message scan \<Rightarrow> database \<Rightarrow> uuid \<Rightarrow> int \<Rightarrow> int \<Rightarrow> user \<Rightarrow> failure + message ListResponse" where
  "get_chat_messages sc d chat_id pg sz current_user =
     (if \<not> valid_paging pg sz then Inl RequestValidationError
      else (let db = SessionLocal d
            in case ChatService_get_chat_by_id db chat_id current_user of
                 Inl err \<Rightarrow> Inl err
               | Inr c \<Rightarrow>
                   ListResponse_of pg sz (MessageService_get_chat_messages sc db c pg sz)))"

section \<open>What the endpoints behind \<open>get_chat_by_id\<close> answer\<close>

text \<open>
  The outcomes of the five endpoints that look the chat up first (fetch with messages,
  rename, delete, send message, list messages), each reduced to its failure or to success.
  The two that only read run their query with the scan of the environment.
\<close>

definition outcomes ::
  "env \<Rightarrow> datetime \<Rightarrow> provider \<Rightarrow> database \<Rightarrow> uuid \<Rightarrow> user \<Rightarrow> string \<Rightarrow> string \<Rightarrow> int \<Rightarrow> int
     \<Rightarrow> (failure + unit) list" where
  "outcomes e now p d chat_id usr title content pg sz =
     [map_sum id (\<lambda>_. ()) (get_chat_with_messages (scan_messages e) d chat_id usr),
      map_sum id (\<lambda>_. ()) (snd (update_chat_title e now d chat_id title usr)),
      map_sum id (\<lambda>_. ()) (snd (delete_chat e d chat_id usr)),
      map_sum id (\<lambda>_. ()) (snd (fst (send_message e now p d chat_id content usr))),
      map_sum id (\<lambda>_. ()) (get_chat_messages (scan_messages e) d chat_id pg sz usr)]"

section \<open>Example data\<close>

definition alice :: user where
  "alice = \<lparr>u_id = 10, u_email = ''alice@example.com'', u_phone = None,
            u_hashed_password = ''h1''\<rparr>"

definition bob :: user where
  "bob = \<lparr>u_id = 20, u_email = ''bob@example.com'', u_phone = None,
          u_hashed_password = ''h2''\<rparr>"

definition chat1 :: chat where
  "chat1 = \<lparr>c_id = 1, c_user_id = 10, c_title = ''New Chat'', c_message_count = 0,
            c_created_at = 5, c_updated_at = 5\<rparr>"

definition chat2 :: chat where
  "chat2 = \<lparr>c_id = 2, c_user_id = 20, c_title = ''Trade'', c_message_count = 0,
            c_created_at = 6, c_updated_at = 6\<rparr>"

definition db0 :: database where
  "db0 = \<lparr>users = [alice, bob], chats = [chat1, chat2], messages = []\<rparr>"

definition env0 :: env where
  "env0 = \<lparr>commit_ok = True, scan_messages = m_id, tick1 = 1, tick2 = 1, tick3 = 1,
           uuid4_1 = 100, uuid4_2 = 101,
           NUPAT_AI_SYSTEM_PROMPT = ''You are NupatAI'',
           CHAT_TITLE_GENERATION_PROMPT = (''Title for: '', '' Title:'')\<rparr>"

text \<open>A provider that answers every request with the same text.\<close>

definition says :: "string \<Rightarrow> provider" where
  "says s = \<lparr>respond = (\<lambda>r. Content (Some s)), received = []\<rparr>"

text \<open>A stand-in for \<open>uuid.UUID\<close> that knows three identifiers.\<close>

definition UUID0 :: "string \<Rightarrow> uuid option" where
  "UUID0 s = (if s = ''10'' then Some 10 else if s = ''20'' then Some 20
              else if s = ''99'' then Some 99 else None)"

text \<open>The database \<open>db0\<close> after one exchange in the first chat.\<close>

definition msg1 :: message where
  "msg1 = \<lparr>m_id = 50, m_chat_id = 1, m_role = USER, m_content = ''What is AfCFTA?'',
           m_created_at = 7\<rparr>"

definition msg2 :: message where
  "msg2 = \<lparr>m_id = 51, m_chat_id = 1, m_role = ASSISTANT, m_content = ''A trade area.'',
           m_created_at = 8\<rparr>"

definition db1 :: database where
  "db1 = \<lparr>users = [alice, bob],
          chats = [chat1\<lparr>c_title := ''AfCFTA Basics'', c_message_count := 2, c_updated_at := 8\<rparr>,
                   chat2],
          messages = [msg1, msg2]\<rparr>"

text \<open>
  A completion without usable text, as \<open>generate_response\<close> tests it: the call raised, or
  the content is \<open>None\<close> or the empty string (\<open>not response_text\<close>).
\<close>

definition unusable :: "completion \<Rightarrow> bool" where
  "unusable c = (case c of Raised msg \<Rightarrow> True | Content None \<Rightarrow> True | Content (Some t) \<Rightarrow> t = [])"

text \<open>A provider whose every call raises.\<close>

definition down :: provider where
  "down = \<lparr>respond = (\<lambda>r. Raised ''connection refused''), received = []\<rparr>"

text \<open>A chat of bob's with twelve messages, dated 0 to 11.\<close>

definition nth_msg :: "nat \<Rightarrow> message" where
  "nth_msg i = \<lparr>m_id = 200 + i, m_chat_id = 2, m_role = (if even i then USER else ASSISTANT),
               m_content = ''m'', m_created_at = int i\<rparr>"

definition db12 :: database where
  "db12 = \<lparr>users = [alice, bob], chats = [chat1, chat2\<lparr>c_message_count := 12\<rparr>],
           messages = map nth_msg [0, 1, 2, 3, 4, 5, 6, 7, 8, 9, 10, 11]\<rparr>"

text \<open>
  A title as a model may return it: a double quote, a space, then seven words of which the
  first six stand between single quotes, and a closing double quote.
\<close>

definition quoted_title :: string where
  "quoted_title = [CHR 0x22] @ '' '' @ [CHR 0x27] @ ''a b c d e f'' @ [CHR 0x27] @ '' g''
                  @ [CHR 0x22]"

text \<open>Six words followed by a long run of spaces, between double quotes.\<close>

definition padded_title :: string where
  "padded_title = [CHR 0x22] @ ''a b c d e f'' @ replicate 250 (CHR '' '') @ [CHR 0x22]"

text \<open>
  The rows of the first \<open>n\<close> pages of the two paginated queries, page by page (a page
  whose query fails has no rows). Every page is a query of its own: \<open>scs k\<close> is the scan
  of the query for page \<open>k\<close>.
\<close>

definition message_pages ::
  "(nat \<Rightarrow> message scan) \<Rightarrow> session \<Rightarrow> chat \<Rightarrow> int \<Rightarrow> nat \<Rightarrow> message list list" where
  "message_pages scs db c sz n =
     map (\<lambda>k. case MessageService_get_chat_messages (scs k) db c (int k) sz of
                 Inl err \<Rightarrow> [] | Inr (rows, n) \<Rightarrow> rows) [1..<Suc n]"

definition chat_pages ::
  "(nat \<Rightarrow> chat scan) \<Rightarrow> session \<Rightarrow> user \<Rightarrow> int \<Rightarrow> nat \<Rightarrow> chat list list" where
  "chat_pages scs db usr sz n =
     map (\<lambda>k. case ChatService_get_user_chats (scs k) db usr (int k) sz of
                 Inl err \<Rightarrow> [] | Inr (rows, n) \<Rightarrow> rows) [1..<Suc n]"

text \<open>The first chat with two messages that carry the same creation time.\<close>

definition tie1 :: message where
  "tie1 = \<lparr>m_id = 60, m_chat_id = 1, m_role = USER, m_content = ''a'', m_created_at = 7\<rparr>"

definition tie2 :: message where
  "tie2 = \<lparr>m_id = 61, m_chat_id = 1, m_role = USER, m_content = ''b'', m_created_at = 7\<rparr>"

definition db_tie :: database where
  "db_tie = \<lparr>users = [alice, bob], chats = [chat1\<lparr>c_message_count := 2\<rparr>, chat2],
             messages = [tie1, tie2]\<rparr>"



text \<open>The two requests of a send: for the reply, and for the title.\<close>

definition response_request :: "env \<Rightarrow> string \<Rightarrow> message list \<Rightarrow> request" where
  "response_request e user_message chat_history =
     \<lparr>req_messages = response_messages e user_message chat_history,
      req_temperature = 7 / 10, req_max_tokens = 2048, req_top_p = Some (95 / 100)\<rparr>"

definition title_request :: "env \<Rightarrow> string \<Rightarrow> request" where
  "title_request e first_message =
     \<lparr>req_messages =
        [(Role_system, ''You are a helpful assistant that creates short, concise chat titles.''),
         (Role_user, get_title_generation_prompt e first_message)],
      req_temperature = 1 / 2, req_max_tokens = 20, req_top_p = None\<rparr>"

section \<open>Ownership of chats\<close>

lemma find_by_key:
  "distinct (map f xs) \<Longrightarrow> x \<in> set xs \<Longrightarrow> find (\<lambda>y. f y = f x) xs = Some x"
  by (induction xs) (auto simp: image_iff)

lemma get_chat_by_id_missing:
  assumes "\<forall>c\<in>set (chats d). c_id c \<noteq> chat_id"
  shows "ChatService_get_chat_by_id (SessionLocal d) chat_id usr
           = Inl (HTTPException 404 ''Chat not found'')"
proof -
  from assms have "find (\<lambda>c. c_id c = chat_id) (chats d) = None"
    by (auto simp: find_None_iff)
  then show ?thesis
    by (simp add: ChatService_get_chat_by_id_def SessionLocal_def)
qed

lemma get_chat_by_id_present:
  assumes "distinct (map c_id (chats d))" "c \<in> set (chats d)"
  shows "ChatService_get_chat_by_id (SessionLocal d) (c_id c) usr =
           (if c_user_id c \<noteq> u_id usr
            then Inl (HTTPException 403 ''Not authorized to access this chat'') else Inr c)"
  using find_by_key[OF assms]
  by (simp add: ChatService_get_chat_by_id_def SessionLocal_def)

lemma get_chat_by_id_Inr:
  "ChatService_get_chat_by_id (SessionLocal d) chat_id usr = Inr c \<Longrightarrow>
   c \<in> set (chats d) \<and> c_id c = chat_id \<and> c_user_id c = u_id usr"
  by (auto simp: ChatService_get_chat_by_id_def SessionLocal_def find_Some_iff
           split: option.splits if_splits)

lemma outcomes_fail:
  assumes "ChatService_get_chat_by_id (SessionLocal d) chat_id usr = Inl err"
    and "ChatUpdate title = Inr title" and "MessageCreate content = Inr content"
    and "valid_paging pg sz"
  shows "outcomes e now p d chat_id usr title content pg sz = replicate 5 (Inl err)"
  using assms
  by (simp add: outcomes_def get_chat_with_messages_def update_chat_title_def delete_chat_def
      send_message_def get_chat_messages_def ChatService_update_chat_title_def
      ChatService_delete_chat_def finish_def Let_def numeral_eq_Suc)

text \<open>
  Claim C5. Chat identifiers are a primary key. For a request that passes validation:
  when no chat has the identifier, \<open>get_chat_by_id\<close> and the five endpoints that go
  through it fail with 404; when the chat with the identifier belongs to another user,
  they all fail with 403 (so never with 404, and never with success); and
  \<open>get_chat_by_id\<close> returns a chat exactly when it is the stored chat with that
  identifier and the requesting user owns it.
\<close>

theorem get_chat_by_id_ownership:
  assumes "distinct (map c_id (chats d))"
    and "ChatUpdate title = Inr title" and "MessageCreate content = Inr content"
    and "valid_paging pg sz"
  shows "((\<forall>c\<in>set (chats d). c_id c \<noteq> chat_id) \<longrightarrow>
            ChatService_get_chat_by_id (SessionLocal d) chat_id usr
              = Inl (HTTPException 404 ''Chat not found'')
          \<and> outcomes e now p d chat_id usr title content pg sz
              = replicate 5 (Inl (HTTPException 404 ''Chat not found'')))
       \<and> (\<forall>c\<in>set (chats d). c_id c = chat_id \<and> c_user_id c \<noteq> u_id usr \<longrightarrow>
            ChatService_get_chat_by_id (SessionLocal d) chat_id usr
              = Inl (HTTPException 403 ''Not authorized to access this chat'')
          \<and> outcomes e now p d chat_id usr title content pg sz
              = replicate 5 (Inl (HTTPException 403 ''Not authorized to access this chat'')))
       \<and> (\<forall>c\<in>set (chats d). c_id c = chat_id \<and> c_user_id c = u_id usr \<longrightarrow>
            ChatService_get_chat_by_id (SessionLocal d) chat_id usr = Inr c)
       \<and> (\<forall>c. ChatService_get_chat_by_id (SessionLocal d) chat_id usr = Inr c \<longrightarrow>
            c \<in> set (chats d) \<and> c_id c = chat_id \<and> c_user_id c = u_id usr)"
proof (intro conjI impI ballI allI)
  assume "\<forall>c\<in>set (chats d). c_id c \<noteq> chat_id"
  then show m: "ChatService_get_chat_by_id (SessionLocal d) chat_id usr
              = Inl (HTTPException 404 ''Chat not found'')"
    by (rule get_chat_by_id_missing)
  show "outcomes e now p d chat_id usr title content pg sz
              = replicate 5 (Inl (HTTPException 404 ''Chat not found''))"
    by (rule outcomes_fail[OF m assms(2-4)])
next
  fix c assume c: "c \<in> set (chats d)" and "c_id c = chat_id \<and> c_user_id c \<noteq> u_id usr"
  then show f: "ChatService_get_chat_by_id (SessionLocal d) chat_id usr
              = Inl (HTTPException 403 ''Not authorized to access this chat'')"
    using get_chat_by_id_present[OF assms(1) c, of usr] by auto
  show "outcomes e now p d chat_id usr title content pg sz
              = replicate 5 (Inl (HTTPException 403 ''Not authorized to access this chat''))"
    by (rule outcomes_fail[OF f assms(2-4)])
next
  fix c assume c: "c \<in> set (chats d)" and "c_id c = chat_id \<and> c_user_id c = u_id usr"
  then show "ChatService_get_chat_by_id (SessionLocal d) chat_id usr = Inr c"
    using get_chat_by_id_present[OF assms(1) c, of usr] by auto
next
  fix c assume "ChatService_get_chat_by_id (SessionLocal d) chat_id usr = Inr c"
  then show "c \<in> set (chats d)" "c_id c = chat_id" "c_user_id c = u_id usr"
    using get_chat_by_id_Inr by blast+
qed


theorem get_chat_by_id_ownership_witness:
  "distinct (map c_id (chats db0)) \<and> ChatUpdate ''Trade'' = Inr ''Trade''
   \<and> MessageCreate ''Hi'' = Inr ''Hi'' \<and> valid_paging 1 50
   \<and> 3 \<notin> set (map c_id (chats db0))
   \<and> ChatService_get_chat_by_id (SessionLocal db0) 3 alice
        = Inl (HTTPException 404 ''Chat not found'')
   \<and> outcomes env0 0 (says ''Hello'') db0 3 alice ''Trade'' ''Hi'' 1 50
        = replicate 5 (Inl (HTTPException 404 ''Chat not found''))
   \<and> chat2 \<in> set (chats db0) \<and> c_id chat2 = 2 \<and> c_user_id chat2 \<noteq> u_id alice
   \<and> ChatService_get_chat_by_id (SessionLocal db0) 2 alice
        = Inl (HTTPException 403 ''Not authorized to access this chat'')
   \<and> outcomes env0 0 (says ''Hello'') db0 2 alice ''Trade'' ''Hi'' 1 50
        = replicate 5 (Inl (HTTPException 403 ''Not authorized to access this chat''))
   \<and> chat1 \<in> set (chats db0) \<and> c_id chat1 = 1 \<and> c_user_id chat1 = u_id alice
   \<and> ChatService_get_chat_by_id (SessionLocal db0) 1 alice = Inr chat1"
proof -
  have h1: "distinct (map c_id (chats db0))"
    by (simp add: db0_def chat1_def chat2_def)
  have h2: "ChatUpdate ''Trade'' = Inr ''Trade''"
    by (simp add: ChatUpdate_def)
  have h3: "MessageCreate ''Hi'' = Inr ''Hi''"
    by (simp add: MessageCreate_def)
  have h4: "valid_paging 1 50"
    by (simp add: valid_paging_def)
  have a: "\<forall>c\<in>set (chats db0). c_id c \<noteq> 3"
    by (simp add: db0_def chat1_def chat2_def)
  have b: "chat2 \<in> set (chats db0) \<and> c_id chat2 = 2 \<and> c_user_id chat2 \<noteq> u_id alice"
    by (simp add: db0_def chat2_def alice_def)
  have c: "chat1 \<in> set (chats db0) \<and> c_id chat1 = 1 \<and> c_user_id chat1 = u_id alice"
    by (simp add: db0_def chat1_def alice_def)
  note T = get_chat_by_id_ownership [OF h1 h2 h3 h4, of _ alice env0 0 "says ''Hello''"]
  have a': "3 \<notin> set (map c_id (chats db0))"
    using a by auto
  from T [of 3] a T [of 2] b T [of 1] c h1 h2 h3 h4 a' show ?thesis
    by blast
qed


section \<open>Identity resolution\<close>

lemma find_SomeD: "find P xs = Some x \<Longrightarrow> P x \<and> x \<in> set xs"
  by (induction xs) (auto split: if_splits)

lemma get_user_by_id_found:
  assumes "uid \<in> set (map u_id (users d))"
  shows "\<exists>u\<in>set (users d). u_id u = uid \<and> AuthService_get_user_by_id (SessionLocal d) uid = Inr u"
proof -
  from assms have "find (\<lambda>u. u_id u = uid) (users d) \<noteq> None"
    by (auto simp: find_None_iff)
  then obtain u where "find (\<lambda>u. u_id u = uid) (users d) = Some u" by blast
  then show ?thesis
    using find_SomeD [of "\<lambda>u. u_id u = uid" "users d" u]
    by (simp add: AuthService_get_user_by_id_def SessionLocal_def)
qed

lemma get_user_by_id_missing:
  assumes "uid \<notin> set (map u_id (users d))"
  shows "AuthService_get_user_by_id (SessionLocal d) uid = Inl (HTTPException 404 ''User not found'')"
proof -
  from assms have "find (\<lambda>u. u_id u = uid) (users d) = None"
    by (auto simp: find_None_iff)
  then show ?thesis
    by (simp add: AuthService_get_user_by_id_def SessionLocal_def)
qed

text \<open>
  Claim C4, as the code has it. Resolution fails with 401 when the token is malformed, has
  an invalid signature or is expired, lacks a subject, or carries a subject that
  \<open>uuid.UUID\<close> rejects. When the subject is a well-formed identifier of no user it fails
  with 404, not 401; otherwise it returns the user with that identifier.
\<close>

theorem get_current_user_outcome:
  "(tok = Malformed \<longrightarrow>
      get_current_user UUID (SessionLocal d) tok
        = Inl (HTTPException 401 ''Could not validate credentials''))
   \<and> (\<forall>sig_ok expd cl. tok = Jwt sig_ok expd cl \<longrightarrow>
        (\<not> sig_ok \<or> expd \<longrightarrow>
           get_current_user UUID (SessionLocal d) tok
             = Inl (HTTPException 401 ''Could not validate credentials''))
      \<and> (sig_ok \<and> \<not> expd \<and> map_of cl ''sub'' = None \<longrightarrow>
           get_current_user UUID (SessionLocal d) tok
             = Inl (HTTPException 401 ''Invalid token payload''))
      \<and> (\<forall>sub. sig_ok \<and> \<not> expd \<and> map_of cl ''sub'' = Some sub \<and> UUID sub = None \<longrightarrow>
           get_current_user UUID (SessionLocal d) tok
             = Inl (HTTPException 401 ''Invalid user ID in token''))
      \<and> (\<forall>sub uid. sig_ok \<and> \<not> expd \<and> map_of cl ''sub'' = Some sub \<and> UUID sub = Some uid \<longrightarrow>
           (uid \<notin> set (map u_id (users d)) \<longrightarrow>
              get_current_user UUID (SessionLocal d) tok
                = Inl (HTTPException 404 ''User not found''))
         \<and> (uid \<in> set (map u_id (users d)) \<longrightarrow>
              (\<exists>u\<in>set (users d). u_id u = uid
                 \<and> get_current_user UUID (SessionLocal d) tok = Inr u))))"
  using get_user_by_id_found [of _ d] get_user_by_id_missing [of _ d]
  by (auto simp: get_current_user_def)

theorem get_current_user_outcome_witness:
  "get_current_user UUID0 (SessionLocal db0) Malformed
     = Inl (HTTPException 401 ''Could not validate credentials'')
   \<and> get_current_user UUID0 (SessionLocal db0) (Jwt True True [(''sub'', ''10'')])
     = Inl (HTTPException 401 ''Could not validate credentials'')
   \<and> get_current_user UUID0 (SessionLocal db0) (Jwt True False [(''email'', ''a'')])
     = Inl (HTTPException 401 ''Invalid token payload'')
   \<and> get_current_user UUID0 (SessionLocal db0) (Jwt True False [(''sub'', ''xyz'')])
     = Inl (HTTPException 401 ''Invalid user ID in token'')
   \<and> 99 \<notin> set (map u_id (users db0))
   \<and> get_current_user UUID0 (SessionLocal db0) (Jwt True False [(''sub'', ''99'')])
     = Inl (HTTPException 404 ''User not found'')
   \<and> 10 \<in> set (map u_id (users db0))
   \<and> (\<exists>u. u \<in> set (users db0) \<and> u_id u = 10
        \<and> get_current_user UUID0 (SessionLocal db0) (Jwt True False [(''sub'', ''10'')]) = Inr u)"
proof -
  have a: "99 \<notin> set (map u_id (users db0))" "10 \<in> set (map u_id (users db0))"
    by (simp_all add: db0_def alice_def bob_def)
  have u: "UUID0 ''xyz'' = None" "UUID0 ''99'' = Some 99" "UUID0 ''10'' = Some 10"
    by (simp_all add: UUID0_def)
  note T = get_current_user_outcome [of _ UUID0 db0]
  have 1: "get_current_user UUID0 (SessionLocal db0) Malformed
     = Inl (HTTPException 401 ''Could not validate credentials'')"
    using T [of Malformed] by auto
  have 2: "get_current_user UUID0 (SessionLocal db0) (Jwt True True [(''sub'', ''10'')])
     = Inl (HTTPException 401 ''Could not validate credentials'')"
    using T [of "Jwt True True [(''sub'', ''10'')]"] by auto
  have 3: "get_current_user UUID0 (SessionLocal db0) (Jwt True False [(''email'', ''a'')])
     = Inl (HTTPException 401 ''Invalid token payload'')"
    using T [of "Jwt True False [(''email'', ''a'')]"] by auto
  have 4: "get_current_user UUID0 (SessionLocal db0) (Jwt True False [(''sub'', ''xyz'')])
     = Inl (HTTPException 401 ''Invalid user ID in token'')"
    using T [of "Jwt True False [(''sub'', ''xyz'')]"] u by auto
  have 5: "get_current_user UUID0 (SessionLocal db0) (Jwt True False [(''sub'', ''99'')])
     = Inl (HTTPException 404 ''User not found'')"
    using T [of "Jwt True False [(''sub'', ''99'')]"] u a by auto
  have 6: "\<exists>u. u \<in> set (users db0) \<and> u_id u = 10
        \<and> get_current_user UUID0 (SessionLocal db0) (Jwt True False [(''sub'', ''10'')]) = Inr u"
    using T [of "Jwt True False [(''sub'', ''10'')]"] u a by (auto simp: Bex_def)
  from 1 2 3 4 5 6 a show ?thesis by blast
qed

text \<open>
  The claim as written says 401 for a subject that names no user: a valid token whose
  subject \<open>99\<close> is a well-formed identifier of no stored user is answered with 404.
\<close>

theorem get_current_user_unknown_user_counterexample:
  "99 \<notin> set (map u_id (users db0))
   \<and> map_sum status_code u_id
        (get_current_user UUID0 (SessionLocal db0) (Jwt True False [(''sub'', ''99'')]))
      = Inl 404
   \<and> (404 :: nat) \<noteq> 401"
  by (simp add: get_current_user_def AuthService_get_user_by_id_def SessionLocal_def
      UUID0_def db0_def alice_def bob_def)


section \<open>Creating a chat\<close>

lemma varchar_fits: "length s \<le> n \<Longrightarrow> varchar n s = Some s"
  by (simp add: varchar_def)

lemma varchar_Some:
  "varchar n s = Some t \<longleftrightarrow>
     (length s \<le> n \<and> t = s) \<or> (n < length s \<and> set (drop n s) \<subseteq> {CHR 0x20} \<and> t = take n s)"
  by (auto simp: varchar_def list_all_iff)

lemma varchar_None:
  "varchar n s = None \<longleftrightarrow> n < length s \<and> \<not> set (drop n s) \<subseteq> {CHR 0x20}"
  by (auto simp: varchar_def list_all_iff)

lemma create_chat_eq:
  "create_chat e now d chat_data usr =
     (case varchar 200 (or_else (ChatCreate chat_data) ''New Chat'') of
        None \<Rightarrow> (d, Inl SQLAlchemyError)
      | Some title \<Rightarrow>
          if commit_ok e
          then (d\<lparr>chats := chats d @
                    [\<lparr>c_id = uuid4_1 e, c_user_id = u_id usr, c_title = title,
                      c_message_count = 0, c_created_at = now + int (tick1 e),
                      c_updated_at = now + int (tick1 e) + int (tick2 e)\<rparr>]\<rparr>,
                Inr \<lparr>c_id = uuid4_1 e, c_user_id = u_id usr, c_title = title,
                     c_message_count = 0, c_created_at = now + int (tick1 e),
                     c_updated_at = now + int (tick1 e) + int (tick2 e)\<rparr>)
          else (d, Inl SQLAlchemyError))"
  by (simp add: create_chat_def ChatService_create_chat_def finish_def commit_def close_def
      add_chat_def SessionLocal_def Let_def utcnow_def split: option.splits)

lemma or_else_ChatCreate:
  "or_else (ChatCreate chat_data) ''New Chat''
     = (case chat_data of Absent \<Rightarrow> ''New Chat'' | Null \<Rightarrow> ''New Chat''
        | Str s \<Rightarrow> if s = [] then ''New Chat'' else s)"
  by (cases chat_data) (simp_all add: or_else_def)

text \<open>
  Claim C9, as the code has it. A chat that \<open>create_chat\<close> creates is owned by the
  calling user and is the new last row of the table. Its title is \<open>"New Chat"\<close> when the
  title is absent, \<open>null\<close> or the empty string. In every other case, a title of
  whitespace included, it is the supplied title when that has at most 200 characters, and
  the first 200 characters of the supplied title when it is longer, which happens only
  when everything beyond them is spaces. The call creates a chat whenever the database
  accepts the commit and the supplied title has at most 200 characters or only spaces
  beyond them; for a longer title with anything else beyond them it fails and the
  database stays as it was.
\<close>

theorem create_chat_title:
  "(\<forall>d' c. create_chat e now d chat_data usr = (d', Inr c) \<longrightarrow>
        c_user_id c = u_id usr
      \<and> chats d' = chats d @ [c] \<and> users d' = users d \<and> messages d' = messages d
      \<and> (case chat_data of
            Absent \<Rightarrow> c_title c = ''New Chat''
          | Null \<Rightarrow> c_title c = ''New Chat''
          | Str s \<Rightarrow>
              if s = [] then c_title c = ''New Chat''
              else if length s \<le> 200 then c_title c = s
              else c_title c = take 200 s \<and> set (drop 200 s) \<subseteq> {CHR 0x20}))
   \<and> (commit_ok e
        \<and> (case chat_data of
              Str s \<Rightarrow> length s \<le> 200 \<or> set (drop 200 s) \<subseteq> {CHR 0x20}
            | _ \<Rightarrow> True) \<longrightarrow>
        (\<exists>d' c. create_chat e now d chat_data usr = (d', Inr c)))
   \<and> ((case chat_data of
          Str s \<Rightarrow> 200 < length s \<and> \<not> set (drop 200 s) \<subseteq> {CHR 0x20}
        | _ \<Rightarrow> False) \<longrightarrow>
        create_chat e now d chat_data usr = (d, Inl SQLAlchemyError))"
proof (intro conjI allI impI)
  fix d' c
  assume run: "create_chat e now d chat_data usr = (d', Inr c)"
  then obtain title where v: "varchar 200 (or_else (ChatCreate chat_data) ''New Chat'') = Some title"
    and ok: "commit_ok e"
    and c: "c = \<lparr>c_id = uuid4_1 e, c_user_id = u_id usr, c_title = title,
                 c_message_count = 0, c_created_at = now + int (tick1 e),
                 c_updated_at = now + int (tick1 e) + int (tick2 e)\<rparr>"
    and d': "d' = d\<lparr>chats := chats d @ [c]\<rparr>"
    by (auto simp: create_chat_eq split: option.splits if_splits)
  show "c_user_id c = u_id usr" by (simp add: c)
  show "chats d' = chats d @ [c]" "users d' = users d" "messages d' = messages d"
    by (simp_all add: d')
  have t: "c_title c = title" by (simp add: c)
  show "case chat_data of
            Absent \<Rightarrow> c_title c = ''New Chat''
          | Null \<Rightarrow> c_title c = ''New Chat''
          | Str s \<Rightarrow>
              if s = [] then c_title c = ''New Chat''
              else if length s \<le> 200 then c_title c = s
              else c_title c = take 200 s \<and> set (drop 200 s) \<subseteq> {CHR 0x20}"
    using v unfolding t or_else_ChatCreate
    by (cases chat_data) (auto simp: varchar_Some)
next
  assume a: "commit_ok e
        \<and> (case chat_data of
              Str s \<Rightarrow> length s \<le> 200 \<or> set (drop 200 s) \<subseteq> {CHR 0x20}
            | _ \<Rightarrow> True)"
  then have "varchar 200 (or_else (ChatCreate chat_data) ''New Chat'') \<noteq> None"
    unfolding or_else_ChatCreate
    by (cases chat_data) (auto simp: varchar_None)
  then obtain title where "varchar 200 (or_else (ChatCreate chat_data) ''New Chat'') = Some title"
    by blast
  with a show "\<exists>d' c. create_chat e now d chat_data usr = (d', Inr c)"
    by (simp add: create_chat_eq)
next
  assume "case chat_data of
          Str s \<Rightarrow> 200 < length s \<and> \<not> set (drop 200 s) \<subseteq> {CHR 0x20}
        | _ \<Rightarrow> False"
  then have "varchar 200 (or_else (ChatCreate chat_data) ''New Chat'') = None"
    unfolding or_else_ChatCreate
    by (cases chat_data) (auto simp: varchar_None)
  then show "create_chat e now d chat_data usr = (d, Inl SQLAlchemyError)"
    by (simp add: create_chat_eq)
qed

theorem create_chat_title_witness:
  "commit_ok env0
   \<and> (\<exists>d' c. create_chat env0 0 db0 (Str ''Plans'') alice = (d', Inr c)
         \<and> c_user_id c = u_id alice \<and> c_title c = ''Plans'' \<and> chats d' = chats db0 @ [c])
   \<and> length (replicate 200 (CHR ''x'') @ ''  '') = 202
   \<and> (\<exists>d' c. create_chat env0 0 db0 (Str (replicate 200 (CHR ''x'') @ ''  '')) alice = (d', Inr c)
         \<and> c_user_id c = u_id alice \<and> c_title c = replicate 200 (CHR ''x''))
   \<and> length (replicate 200 (CHR ''x'') @ ''yz'') = 202
   \<and> create_chat env0 0 db0 (Str (replicate 200 (CHR ''x'') @ ''yz'')) alice
       = (db0, Inl SQLAlchemyError)"
proof -
  have ok: "commit_ok env0" by (simp add: env0_def)
  note T = create_chat_title [of env0 0 db0 _ alice]
  have "\<exists>d' c. create_chat env0 0 db0 (Str ''Plans'') alice = (d', Inr c)"
    using T [of "Str ''Plans''", THEN conjunct2, THEN conjunct1] ok by simp
  then obtain d1 c1 where r1: "create_chat env0 0 db0 (Str ''Plans'') alice = (d1, Inr c1)"
    by blast
  from T [of "Str ''Plans''", THEN conjunct1, rule_format, OF r1]
  have 1: "c_user_id c1 = u_id alice \<and> c_title c1 = ''Plans'' \<and> chats d1 = chats db0 @ [c1]"
    by simp
  have "\<exists>d' c. create_chat env0 0 db0 (Str (replicate 200 (CHR ''x'') @ ''  '')) alice = (d', Inr c)"
    using T [of "Str (replicate 200 (CHR ''x'') @ ''  '')", THEN conjunct2, THEN conjunct1] ok
    by simp
  then obtain d2 c2 where
    r2: "create_chat env0 0 db0 (Str (replicate 200 (CHR ''x'') @ ''  '')) alice = (d2, Inr c2)"
    by blast
  from T [of "Str (replicate 200 (CHR ''x'') @ ''  '')", THEN conjunct1, rule_format, OF r2]
  have 2: "c_user_id c2 = u_id alice \<and> c_title c2 = replicate 200 (CHR ''x'')"
    by simp
  have 3: "create_chat env0 0 db0 (Str (replicate 200 (CHR ''x'') @ ''yz'')) alice
       = (db0, Inl SQLAlchemyError)"
    using T [of "Str (replicate 200 (CHR ''x'') @ ''yz'')", THEN conjunct2, THEN conjunct2]
    by simp
  have l: "length (replicate 200 (CHR ''x'') @ ''  '') = 202"
    "length (replicate 200 (CHR ''x'') @ ''yz'') = 202"
    by simp_all
  from r1 1 have a: "\<exists>d' c. create_chat env0 0 db0 (Str ''Plans'') alice = (d', Inr c)
         \<and> c_user_id c = u_id alice \<and> c_title c = ''Plans'' \<and> chats d' = chats db0 @ [c]"
    by blast
  from r2 2 have b: "\<exists>d' c. create_chat env0 0 db0 (Str (replicate 200 (CHR ''x'') @ ''  '')) alice = (d', Inr c)
         \<and> c_user_id c = u_id alice \<and> c_title c = replicate 200 (CHR ''x'')"
    by blast
  show ?thesis by (intro conjI ok a b l 3)
qed

text \<open>
  The claim as written says \<open>"New Chat"\<close> for a title of whitespace only: three spaces
  are blank, and the chat is created with the three spaces as its title.
\<close>

theorem create_chat_blank_title_counterexample:
  "strip ''   '' = []
   \<and> map_sum id c_title (snd (create_chat env0 0 db0 (Str ''   '') alice)) = Inr ''   ''
   \<and> ''   '' \<noteq> ''New Chat''"
  by (simp add: create_chat_eq varchar_def or_else_def env0_def
      strip_def strip_chars_def isspace_def)


section \<open>The send workflow\<close>

text \<open>What does hold of every generated title: it has at most 200 characters.\<close>

lemma clean_title_length: "length (clean_title t) \<le> 200"
  by (simp add: clean_title_def Let_def)

lemma generate_chat_title_length:
  "length (fst (AIService_generate_chat_title e p content)) \<le> 200"
  by (simp add: AIService_generate_chat_title_def create_def clean_title_length Let_def
           split: completion.splits option.splits)

lemma title_step_length:
  assumes "(if b then AIService_generate_chat_title e p1 content else ([], p1)) = (ttl, p2)"
  shows "length ttl \<le> 200"
proof (cases b)
  case True
  with assms have "ttl = fst (AIService_generate_chat_title e p1 content)"
    by (simp add: prod_eq_iff)
  then show ?thesis by (simp add: generate_chat_title_length)
next
  case False
  with assms show ?thesis by simp
qed

text \<open>A title that is unchanged or fits the column is written as it is.\<close>

lemma flush_chat_eq:
  assumes "c_title new = c_title old \<or> length (c_title new) \<le> 200"
  shows "flush_chat old new t s =
     Inr (if new = old then (s, old)
          else (s\<lparr>pending := (pending s)\<lparr>chats :=
                     map (\<lambda>c. if c_id c = c_id old then new\<lparr>c_updated_at := t\<rparr> else c)
                         (chats (pending s))\<rparr>\<rparr>,
                new\<lparr>c_updated_at := t\<rparr>))"
  using assms by (auto simp: flush_chat_def varchar_def Let_def)

lemma respond_Inl:
  assumes "AIService_generate_response e p content (messages_of db (c_id c) (scan_messages e))
             = (Inl err, p1)"
  shows "MessageService_create_message_and_respond e now p db c content = (Inl err, p1)"
  using assms by (simp add: MessageService_create_message_and_respond_def Let_def)

lemma respond_raw:
  assumes "AIService_generate_response e p content (messages_of db (c_id c) (scan_messages e))
             = (Inr reply, p1)"
    and "(if length (messages_of db (c_id c) (scan_messages e)) = 0
          then AIService_generate_chat_title e p1 content
          else ([], p1)) = (ttl, p2)"
    and "retitle = (length (messages_of db (c_id c) (scan_messages e)) = 0 \<and> ttl \<noteq> []
                    \<and> ttl \<noteq> ''New Chat'')"
    and "c2 = (if retitle
               then c\<lparr>c_message_count := length (messages_of db (c_id c) (scan_messages e)) + 2,
                      c_title := ttl\<rparr>
               else c\<lparr>c_message_count := length (messages_of db (c_id c) (scan_messages e)) + 2\<rparr>)"
    and "um = \<lparr>m_id = uuid4_1 e, m_chat_id = c_id c, m_role = USER, m_content = content,
                m_created_at = utcnow (tick1 e) now\<rparr>"
    and "am = \<lparr>m_id = uuid4_2 e, m_chat_id = c_id c, m_role = ASSISTANT, m_content = reply,
                m_created_at = utcnow (tick3 e) (utcnow (tick2 e) (utcnow (tick1 e) now))\<rparr>"
    and "t2 = utcnow (tick2 e) (utcnow (tick1 e) now)"
  shows "MessageService_create_message_and_respond e now p db c content =
    (case flush_chat c c2 t2 (add_message um db) of
       Inl err \<Rightarrow> (Inl err, p2)
     | Inr (db2, row) \<Rightarrow>
         (case commit (commit_ok e) (add_message am db2) of
            Inl err \<Rightarrow> (Inl err, p2)
          | Inr db3 \<Rightarrow>
              (Inr (db3, \<lparr>sent_user_message = um, sent_assistant_message = am,
                          sent_title_generated = retitle, sent_chat = row\<rparr>),
               p2)))"
  unfolding MessageService_create_message_and_respond_def Let_def assms(3-)
  by (simp only: assms(1,2) prod.case sum.case)

text \<open>
  The title a send assigns has at most 200 characters, so the chat's row is always
  written: \<open>flushed\<close> is the session after that, and \<open>row\<close> the row as stored.
\<close>

lemma respond_Inr:
  assumes "AIService_generate_response e p content (messages_of db (c_id c) (scan_messages e))
             = (Inr reply, p1)"
    and "(if length (messages_of db (c_id c) (scan_messages e)) = 0
          then AIService_generate_chat_title e p1 content
          else ([], p1)) = (ttl, p2)"
    and "retitle = (length (messages_of db (c_id c) (scan_messages e)) = 0 \<and> ttl \<noteq> []
                    \<and> ttl \<noteq> ''New Chat'')"
    and "c2 = (if retitle
               then c\<lparr>c_message_count := length (messages_of db (c_id c) (scan_messages e)) + 2,
                      c_title := ttl\<rparr>
               else c\<lparr>c_message_count := length (messages_of db (c_id c) (scan_messages e)) + 2\<rparr>)"
    and "um = \<lparr>m_id = uuid4_1 e, m_chat_id = c_id c, m_role = USER, m_content = content,
                m_created_at = utcnow (tick1 e) now\<rparr>"
    and "am = \<lparr>m_id = uuid4_2 e, m_chat_id = c_id c, m_role = ASSISTANT, m_content = reply,
                m_created_at = utcnow (tick3 e) (utcnow (tick2 e) (utcnow (tick1 e) now))\<rparr>"
    and "t2 = utcnow (tick2 e) (utcnow (tick1 e) now)"
    and "flushed = (if c2 = c then add_message um db
                    else (add_message um db)\<lparr>pending := (pending (add_message um db))\<lparr>chats :=
                           map (\<lambda>x. if c_id x = c_id c then c2\<lparr>c_updated_at := t2\<rparr> else x)
                               (chats (pending (add_message um db)))\<rparr>\<rparr>)"
    and "row = (if c2 = c then c else c2\<lparr>c_updated_at := t2\<rparr>)"
  shows "MessageService_create_message_and_respond e now p db c content =
    (case commit (commit_ok e) (add_message am flushed) of
       Inl err \<Rightarrow> (Inl err, p2)
     | Inr db3 \<Rightarrow>
         (Inr (db3, \<lparr>sent_user_message = um, sent_assistant_message = am,
                     sent_title_generated = retitle, sent_chat = row\<rparr>),
          p2))"
proof -
  have "length ttl \<le> 200"
    using assms(2) by (rule title_step_length)
  then have "c_title c2 = c_title c \<or> length (c_title c2) \<le> 200"
    by (simp add: assms(4))
  from flush_chat_eq [OF this, of t2 "add_message um db"]
  have "flush_chat c c2 t2 (add_message um db) = Inr (flushed, row)"
    by (simp add: assms(8,9))
  with respond_raw [OF assms(1-7)] show ?thesis
    by simp
qed

lemma flushed_rows:
  "messages (pending (add_message am
      (if c2 = c then add_message um (SessionLocal d)
       else (add_message um (SessionLocal d))\<lparr>pending :=
              (pending (add_message um (SessionLocal d)))\<lparr>chats :=
                 map (\<lambda>x. if c_id x = c_id c then c2\<lparr>c_updated_at := t\<rparr> else x)
                     (chats (pending (add_message um (SessionLocal d))))\<rparr>\<rparr>)))
     = messages d @ [um, am]"
  "users (pending (add_message am
      (if c2 = c then add_message um (SessionLocal d)
       else (add_message um (SessionLocal d))\<lparr>pending :=
              (pending (add_message um (SessionLocal d)))\<lparr>chats :=
                 map (\<lambda>x. if c_id x = c_id c then c2\<lparr>c_updated_at := t\<rparr> else x)
                     (chats (pending (add_message um (SessionLocal d))))\<rparr>\<rparr>)))
     = users d"
  "chats (pending (add_message am
      (if c2 = c then add_message um (SessionLocal d)
       else (add_message um (SessionLocal d))\<lparr>pending :=
              (pending (add_message um (SessionLocal d)))\<lparr>chats :=
                 map (\<lambda>x. if c_id x = c_id c then c2\<lparr>c_updated_at := t\<rparr> else x)
                     (chats (pending (add_message um (SessionLocal d))))\<rparr>\<rparr>)))
     = (if c2 = c then chats d
        else map (\<lambda>x. if c_id x = c_id c then c2\<lparr>c_updated_at := t\<rparr> else x) (chats d))"
  by (simp_all add: add_message_def SessionLocal_def)

lemma commit_Inr:
  "commit ok s = Inr s' \<Longrightarrow> ok \<and> close s' = pending s"
  by (auto simp: commit_def close_def split: if_splits)

text \<open>What a successful send has done.\<close>

lemma send_message_Inr:
  assumes "send_message e now p d chat_id content usr = ((d', Inr s), p')"
  shows "\<exists>c reply p1 ttl c2.
           ChatService_get_chat_by_id (SessionLocal d) chat_id usr = Inr c
         \<and> content \<noteq> []
         \<and> AIService_generate_response e p content
              (messages_of (SessionLocal d) chat_id (scan_messages e))
             = (Inr reply, p1)
         \<and> (if length (messages_of (SessionLocal d) chat_id (scan_messages e)) = 0
              then AIService_generate_chat_title e p1 content else ([], p1)) = (ttl, p')
         \<and> sent_title_generated s
             = (length (messages_of (SessionLocal d) chat_id (scan_messages e)) = 0 \<and> ttl \<noteq> []
                \<and> ttl \<noteq> ''New Chat'')
         \<and> c2 = (if sent_title_generated s
                   then c\<lparr>c_message_count :=
                            length (messages_of (SessionLocal d) chat_id (scan_messages e)) + 2,
                          c_title := ttl\<rparr>
                   else c\<lparr>c_message_count :=
                            length (messages_of (SessionLocal d) chat_id (scan_messages e)) + 2\<rparr>)
         \<and> sent_user_message s
             = \<lparr>m_id = uuid4_1 e, m_chat_id = chat_id, m_role = USER, m_content = content,
                m_created_at = now + int (tick1 e)\<rparr>
         \<and> sent_assistant_message s
             = \<lparr>m_id = uuid4_2 e, m_chat_id = chat_id, m_role = ASSISTANT, m_content = reply,
                m_created_at = now + int (tick1 e) + int (tick2 e) + int (tick3 e)\<rparr>
         \<and> sent_chat s
             = (if c2 = c then c else c2\<lparr>c_updated_at := now + int (tick1 e) + int (tick2 e)\<rparr>)
         \<and> users d' = users d
         \<and> messages d' = messages d @ [sent_user_message s, sent_assistant_message s]
         \<and> chats d' = (if c2 = c then chats d
                        else map (\<lambda>x. if c_id x = chat_id then sent_chat s else x) (chats d))
         \<and> commit_ok e"
proof -
  let ?h = "messages_of (SessionLocal d) chat_id (scan_messages e)"
  from assms have ne: "content \<noteq> []"
    by (cases content) (auto simp: send_message_def MessageCreate_def)
  then have mc: "MessageCreate content = Inr content"
    by (cases content) (simp_all add: MessageCreate_def)
  from assms mc obtain c where c: "ChatService_get_chat_by_id (SessionLocal d) chat_id usr = Inr c"
    by (cases "ChatService_get_chat_by_id (SessionLocal d) chat_id usr")
       (auto simp: send_message_def finish_def Let_def)
  then have cid: "c_id c = chat_id"
    using get_chat_by_id_Inr by blast
  obtain r p1 where g: "AIService_generate_response e p content
                          (messages_of (SessionLocal d) (c_id c) (scan_messages e)) = (r, p1)"
    by fastforce
  obtain ttl p2 where t: "(if length (messages_of (SessionLocal d) (c_id c) (scan_messages e)) = 0
              then AIService_generate_chat_title e p1 content else ([], p1)) = (ttl, p2)"
    by fastforce
  define retitle where "retitle = (length (messages_of (SessionLocal d) (c_id c) (scan_messages e)) = 0
                                    \<and> ttl \<noteq> [] \<and> ttl \<noteq> ''New Chat'')"
  define c2 where "c2 = (if retitle
               then c\<lparr>c_message_count := length (messages_of (SessionLocal d) (c_id c) (scan_messages e)) + 2,
                      c_title := ttl\<rparr>
               else c\<lparr>c_message_count := length (messages_of (SessionLocal d) (c_id c) (scan_messages e)) + 2\<rparr>)"
  define um where "um = \<lparr>m_id = uuid4_1 e, m_chat_id = c_id c, m_role = USER, m_content = content,
                m_created_at = utcnow (tick1 e) now\<rparr>"
  define t2 where "t2 = utcnow (tick2 e) (utcnow (tick1 e) now)"
  define flushed where "flushed = (if c2 = c then add_message um (SessionLocal d)
                    else (add_message um (SessionLocal d))\<lparr>pending :=
                           (pending (add_message um (SessionLocal d)))\<lparr>chats :=
                           map (\<lambda>x. if c_id x = c_id c then c2\<lparr>c_updated_at := t2\<rparr> else x)
                               (chats (pending (add_message um (SessionLocal d))))\<rparr>\<rparr>)"
  define row where "row = (if c2 = c then c else c2\<lparr>c_updated_at := t2\<rparr>)"
  have run: "(finish (SessionLocal d)
               (fst (MessageService_create_message_and_respond e now p (SessionLocal d) c content)),
              snd (MessageService_create_message_and_respond e now p (SessionLocal d) c content))
             = ((d', Inr s), p')"
    using assms mc c by (simp add: send_message_def Let_def split: prod.splits)
  show ?thesis
  proof (cases r)
    case (Inl err)
    with g have "MessageService_create_message_and_respond e now p (SessionLocal d) c content = (Inl err, p1)"
      by (simp add: respond_Inl)
    with run show ?thesis by (simp add: finish_def)
  next
    case (Inr reply)
    define am where "am = \<lparr>m_id = uuid4_2 e, m_chat_id = c_id c, m_role = ASSISTANT, m_content = reply,
                m_created_at = utcnow (tick3 e) (utcnow (tick2 e) (utcnow (tick1 e) now))\<rparr>"
    note R = respond_Inr [OF g [unfolded Inr] t retitle_def c2_def um_def am_def t2_def
                             flushed_def row_def]
    show ?thesis
    proof (cases "commit (commit_ok e) (add_message am flushed)")
      case (Inl err)
      with R run show ?thesis by (simp add: finish_def)
    next
      case cm: (Inr db3)
      from R run cm have s: "s = \<lparr>sent_user_message = um, sent_assistant_message = am,
                     sent_title_generated = retitle, sent_chat = row\<rparr>"
        and d': "d' = close db3" and p': "p' = p2"
        by (simp_all add: finish_def)
      note C = commit_Inr [OF cm]
      have 1: "sent_title_generated s = retitle" "sent_user_message s = um"
        "sent_assistant_message s = am"
        "sent_chat s = (if c2 = c then c else c2\<lparr>c_updated_at := t2\<rparr>)"
        by (simp_all add: s row_def)
      have 2: "users d' = users d" "messages d' = messages d @ [um, am]"
        "chats d' = (if c2 = c then chats d
           else map (\<lambda>x. if c_id x = c_id c then c2\<lparr>c_updated_at := t2\<rparr> else x) (chats d))"
        using C by (simp_all add: d' flushed_def flushed_rows)
      show ?thesis
        apply (rule exI [of _ c], rule exI [of _ reply], rule exI [of _ p1], rule exI [of _ ttl],
               rule exI [of _ c2])
        using c ne g [unfolded Inr cid] t [unfolded cid] C
        apply (simp only: 1 2 p' simp_thms)
        apply (simp add: retitle_def c2_def um_def am_def t2_def utcnow_def cid
                    split del: if_split cong: if_cong)
        done
    qed
  qed
qed

text \<open>A send whose reply is generated succeeds when the database accepts the commit.\<close>

lemma send_message_succeeds:
  assumes "content \<noteq> []"
    and "ChatService_get_chat_by_id (SessionLocal d) chat_id usr = Inr c"
    and "fst (AIService_generate_response e p content
                (messages_of (SessionLocal d) chat_id (scan_messages e))) = Inr reply"
    and "commit_ok e"
  shows "\<exists>d' s p'. send_message e now p d chat_id content usr = ((d', Inr s), p')"
proof -
  from assms(2) have cid: "c_id c = chat_id"
    using get_chat_by_id_Inr by blast
  from assms(1) have mc: "MessageCreate content = Inr content"
    by (cases content) (simp_all add: MessageCreate_def)
  obtain p1 where g: "AIService_generate_response e p content
                          (messages_of (SessionLocal d) (c_id c) (scan_messages e)) = (Inr reply, p1)"
    using assms(3) unfolding cid by (metis prod.collapse)
  obtain ttl p2 where t: "(if length (messages_of (SessionLocal d) (c_id c) (scan_messages e)) = 0
              then AIService_generate_chat_title e p1 content else ([], p1)) = (ttl, p2)"
    by fastforce
  note R = respond_Inr [OF g t refl refl refl refl refl refl refl, of now]
  show ?thesis
    using mc assms(2,4)
    by (simp add: send_message_def R commit_def finish_def Let_def)
qed


section \<open>A successful send\<close>

lemma find_map_replace:
  "find (\<lambda>x. f x = k) xs = Some c \<Longrightarrow> f c' = k \<Longrightarrow>
   find (\<lambda>x. f x = k) (map (\<lambda>x. if f x = k then c' else x) xs) = Some c'"
  by (induction xs) (auto split: if_splits)

lemma get_chat_by_id_find:
  "ChatService_get_chat_by_id (SessionLocal d) chat_id usr = Inr c \<longleftrightarrow>
   find (\<lambda>x. c_id x = chat_id) (chats d) = Some c \<and> c_user_id c = u_id usr"
  by (auto simp: ChatService_get_chat_by_id_def SessionLocal_def split: option.splits)

text \<open>After a successful send the chat's row in the database is the chat returned.\<close>

lemma send_message_stored_chat:
  assumes run: "send_message e now p d chat_id content usr = ((d', Inr s), p')"
  shows "ChatService_get_chat_by_id (SessionLocal d') chat_id usr = Inr (sent_chat s)"
proof -
  let ?h = "messages_of (SessionLocal d) chat_id (scan_messages e)"
  from send_message_Inr [OF run] obtain c ttl c2 where
    c: "ChatService_get_chat_by_id (SessionLocal d) chat_id usr = Inr c"
    and c2: "c2 = (if sent_title_generated s
                   then c\<lparr>c_message_count := length ?h + 2, c_title := ttl\<rparr>
                   else c\<lparr>c_message_count := length ?h + 2\<rparr>)"
    and sc: "sent_chat s
             = (if c2 = c then c else c2\<lparr>c_updated_at := now + int (tick1 e) + int (tick2 e)\<rparr>)"
    and cs: "chats d' = (if c2 = c then chats d
                        else map (\<lambda>x. if c_id x = chat_id then sent_chat s else x) (chats d))"
    by blast
  from c have f: "find (\<lambda>x. c_id x = chat_id) (chats d) = Some c" and own: "c_user_id c = u_id usr"
    by (simp_all add: get_chat_by_id_find)
  then have cid: "c_id c = chat_id"
    using find_SomeD [of "\<lambda>x. c_id x = chat_id" "chats d" c] by simp
  show ?thesis
  proof (cases "c2 = c")
    case True
    with sc cs f own show ?thesis by (simp add: get_chat_by_id_find)
  next
    case False
    have "c_id c2 = chat_id" "c_user_id c2 = u_id usr"
      using cid own by (simp_all add: c2)
    then have "c_id (sent_chat s) = chat_id" "c_user_id (sent_chat s) = u_id usr"
      using False by (simp_all add: sc)
    with False cs find_map_replace [OF f, of "sent_chat s"] show ?thesis
      by (simp add: get_chat_by_id_find)
  qed
qed

text \<open>An ordered query yields the rows it selects, each once, sorted by the column.\<close>

lemma order_by_mset: "mset (order_by f sc xs) = mset xs"
  by (simp add: order_by_def)

lemma order_by_set: "set (order_by f sc xs) = set xs"
  by (simp add: order_by_def)

lemma order_by_length: "length (order_by f sc xs) = length xs"
  by (simp add: order_by_def)

lemma order_by_sorted: "sorted (map f (order_by f sc xs))"
  by (simp add: order_by_def)

lemma order_by_Nil: "order_by f sc xs = [] \<longleftrightarrow> xs = []"
  using order_by_length [of f sc xs] by (metis length_0_conv)






lemmas example_defs =
  alice_def bob_def chat1_def chat2_def db0_def db1_def msg1_def msg2_def env0_def says_def

lemmas send_defs =
  send_message_def MessageCreate_def ChatService_get_chat_by_id_def SessionLocal_def
  MessageService_create_message_and_respond_def messages_of_def order_by_def
  AIService_generate_response_def
  AIService_generate_chat_title_def get_title_generation_prompt_def clean_title_def
  create_def response_messages_def recent_messages_def api_role_of_def
  strip_def strip_chars_def isspace_def isquote_def split_def
  flush_chat_def varchar_def add_message_def commit_def finish_def close_def utcnow_def Let_def




section \<open>A failing provider\<close>

lemma generate_response_unusable:
  assumes "unusable (respond p \<lparr>req_messages = response_messages e content h,
                               req_temperature = 7 / 10, req_max_tokens = 2048,
                               req_top_p = Some (95 / 100)\<rparr>)"
  shows "\<exists>detail. AIService_generate_response e p content h
           = (Inl (HTTPException 500 detail),
              p\<lparr>received := received p @ [\<lparr>req_messages = response_messages e content h,
                                            req_temperature = 7 / 10, req_max_tokens = 2048,
                                            req_top_p = Some (95 / 100)\<rparr>]\<rparr>)"
  using assms
  by (auto simp: AIService_generate_response_def create_def unusable_def
           split: completion.splits option.splits)

text \<open>
  What the code does refuse. The request is valid and the chat is the caller's, so the
  provider is called. If that call raises, or returns \<open>None\<close> or the empty string,
  \<open>send_message\<close> fails with an \<open>HTTPException\<close> of status 500, the database is exactly
  what it was (no user message, the chat's row untouched), and the provider has received
  this one request and no other: nothing is retried.
\<close>

lemma send_message_provider_failure:
  assumes "content \<noteq> []"
    and "ChatService_get_chat_by_id (SessionLocal d) chat_id usr = Inr c"
    and "unusable (respond p \<lparr>req_messages =
                                 response_messages e content
                                   (messages_of (SessionLocal d) chat_id (scan_messages e)),
                               req_temperature = 7 / 10, req_max_tokens = 2048,
                               req_top_p = Some (95 / 100)\<rparr>)"
  shows "\<exists>detail.
           send_message e now p d chat_id content usr
             = ((d, Inl (HTTPException 500 detail)),
                p\<lparr>received := received p @
                    [\<lparr>req_messages =
                        response_messages e content
                          (messages_of (SessionLocal d) chat_id (scan_messages e)),
                      req_temperature = 7 / 10, req_max_tokens = 2048,
                      req_top_p = Some (95 / 100)\<rparr>]\<rparr>)
         \<and> status_code (HTTPException 500 detail) = 500"
proof -
  let ?h = "messages_of (SessionLocal d) chat_id (scan_messages e)"
  from assms(2) have cid: "c_id c = chat_id"
    using get_chat_by_id_Inr by blast
  from generate_response_unusable [OF assms(3)] obtain detail where
    g: "AIService_generate_response e p content ?h
           = (Inl (HTTPException 500 detail),
              p\<lparr>received := received p @
                    [\<lparr>req_messages = response_messages e content ?h,
                      req_temperature = 7 / 10, req_max_tokens = 2048,
                      req_top_p = Some (95 / 100)\<rparr>]\<rparr>)"
    by blast
  from assms(1) have mc: "MessageCreate content = Inr content"
    by (cases content) (simp_all add: MessageCreate_def)
  have "send_message e now p d chat_id content usr
             = ((d, Inl (HTTPException 500 detail)),
                p\<lparr>received := received p @
                    [\<lparr>req_messages = response_messages e content ?h,
                      req_temperature = 7 / 10, req_max_tokens = 2048,
                      req_top_p = Some (95 / 100)\<rparr>]\<rparr>)"
    using respond_Inl [OF g [folded cid], of now] mc assms(2)
    by (simp add: send_message_def finish_def close_def Let_def cid)
       (simp add: SessionLocal_def)
  then show ?thesis by auto
qed

text \<open>
  What the code does not refuse: the test \<open>if not response_text\<close> comes before
  \<open>strip()\<close>, so a text of whitespace only passes it and the reply is the empty string.
  Such a send succeeds whenever the database accepts the commit, with an assistant message
  of empty content.
\<close>

lemma generate_response_whitespace:
  assumes "respond p \<lparr>req_messages = response_messages e content h,
                      req_temperature = 7 / 10, req_max_tokens = 2048,
                      req_top_p = Some (95 / 100)\<rparr> = Content (Some t)"
    and "t \<noteq> []" and "strip t = []"
  shows "fst (AIService_generate_response e p content h) = Inr []"
  using assms
  by (simp add: AIService_generate_response_def create_def)

lemma send_message_whitespace_reply:
  assumes "content \<noteq> []"
    and "ChatService_get_chat_by_id (SessionLocal d) chat_id usr = Inr c"
    and "respond p \<lparr>req_messages =
                        response_messages e content
                          (messages_of (SessionLocal d) chat_id (scan_messages e)),
                      req_temperature = 7 / 10, req_max_tokens = 2048,
                      req_top_p = Some (95 / 100)\<rparr> = Content (Some t)"
    and "t \<noteq> []" and "strip t = []" and "commit_ok e"
  shows "\<exists>d' s p'. send_message e now p d chat_id content usr = ((d', Inr s), p')
           \<and> m_role (sent_assistant_message s) = ASSISTANT
           \<and> m_content (sent_assistant_message s) = []
           \<and> messages d' = messages d @ [sent_user_message s, sent_assistant_message s]"
proof -
  note g = generate_response_whitespace [OF assms(3,4,5)]
  from send_message_succeeds [OF assms(1,2) g assms(6), of now] obtain d' s p' where
    run: "send_message e now p d chat_id content usr = ((d', Inr s), p')"
    by blast
  from send_message_Inr [OF run] g
  have "m_role (sent_assistant_message s) = ASSISTANT
           \<and> m_content (sent_assistant_message s) = []
           \<and> messages d' = messages d @ [sent_user_message s, sent_assistant_message s]"
    by auto
  with run show ?thesis by blast
qed

text \<open>
  Claim C2 at one input. In the chat of \<open>db1\<close>, which holds two messages, \<open>alice\<close> sends
  \<open>"Hi"\<close> and the provider's completion is two spaces: no usable text, \<open>strip()\<close> leaves
  nothing of it. The claim says that the send fails and commits nothing. The send
  succeeds: the table has the user message and an assistant message with empty content,
  and the chat's row carries the count 4. With the empty string as completion the same
  send does fail with status 500 and leaves the database as it was, and
  \<open>generate_chat_title\<close>, which strips before it tests, treats the two spaces as no
  title.
\<close>

theorem send_message_blank_reply:
  "strip ''  '' = []
   \<and> (\<exists>d' s p'. send_message env0 10 (says ''  '') db1 1 ''Hi'' alice = ((d', Inr s), p')
         \<and> m_role (sent_assistant_message s) = ASSISTANT
         \<and> m_content (sent_assistant_message s) = []
         \<and> messages d' = [msg1, msg2, sent_user_message s, sent_assistant_message s]
         \<and> ChatService_get_chat_by_id (SessionLocal d') 1 alice = Inr (sent_chat s)
         \<and> c_message_count (sent_chat s) = 4)
   \<and> fst (send_message env0 10 (says []) db1 1 ''Hi'' alice)
       = (db1, Inl (HTTPException 500 ''AI service error: 500: Failed to generate AI response''))
   \<and> fst (AIService_generate_chat_title env0 (says ''  '') ''Hi'') = ''New Chat''"
proof -
  have 1: "strip ''  '' = []"
    by (simp add: strip_def strip_chars_def isspace_def)
  have 2: "\<exists>d' s p'. send_message env0 10 (says ''  '') db1 1 ''Hi'' alice = ((d', Inr s), p')
         \<and> m_role (sent_assistant_message s) = ASSISTANT
         \<and> m_content (sent_assistant_message s) = []
         \<and> messages d' = [msg1, msg2, sent_user_message s, sent_assistant_message s]
         \<and> ChatService_get_chat_by_id (SessionLocal d') 1 alice = Inr (sent_chat s)
         \<and> c_message_count (sent_chat s) = 4"
    by (simp add: send_defs example_defs)
  have 3: "fst (send_message env0 10 (says []) db1 1 ''Hi'' alice)
       = (db1, Inl (HTTPException 500 ''AI service error: 500: Failed to generate AI response''))"
    by (simp add: send_defs example_defs)
  have 4: "fst (AIService_generate_chat_title env0 (says ''  '') ''Hi'') = ''New Chat''"
    by (simp add: send_defs example_defs)
  show ?thesis by (intro conjI 1 2 3 4)
qed


section \<open>The context sent to the provider\<close>

lemma generate_response_received:
  "snd (AIService_generate_response e p content h)
     = p\<lparr>received := received p @ [\<lparr>req_messages = response_messages e content h,
                                      req_temperature = 7 / 10, req_max_tokens = 2048,
                                      req_top_p = Some (95 / 100)\<rparr>]\<rparr>"
  by (simp add: AIService_generate_response_def create_def)

lemma generate_chat_title_received:
  "snd (AIService_generate_chat_title e p content)
     = p\<lparr>received := received p @
          [\<lparr>req_messages =
              [(Role_system,
                ''You are a helpful assistant that creates short, concise chat titles.''),
               (Role_user, get_title_generation_prompt e content)],
            req_temperature = 1 / 2, req_max_tokens = 20, req_top_p = None\<rparr>]\<rparr>"
  by (simp add: AIService_generate_chat_title_def create_def)

text \<open>The provider after a send that reached the provider, and the rows it leaves.\<close>

lemma send_message_provider:
  assumes "content \<noteq> []"
    and "ChatService_get_chat_by_id (SessionLocal d) chat_id usr = Inr c"
    and g: "AIService_generate_response e p content (messages_of (SessionLocal d) chat_id (scan_messages e)) = (r, p1)"
  shows "snd (send_message e now p d chat_id content usr)
           = (case r of
                Inl err \<Rightarrow> p1
              | Inr reply \<Rightarrow>
                  (if length (messages_of (SessionLocal d) chat_id (scan_messages e)) = 0
                   then snd (AIService_generate_chat_title e p1 content) else p1))"
    and "\<exists>new. messages (fst (fst (send_message e now p d chat_id content usr)))
                 = messages d @ new"
proof -
  from assms(2) have cid: "c_id c = chat_id"
    using get_chat_by_id_Inr by blast
  from assms(1) have mc: "MessageCreate content = Inr content"
    by (cases content) (simp_all add: MessageCreate_def)
  have send: "send_message e now p d chat_id content usr
      = (finish (SessionLocal d)
           (fst (MessageService_create_message_and_respond e now p (SessionLocal d) c content)),
         snd (MessageService_create_message_and_respond e now p (SessionLocal d) c content))"
    using mc assms(2) by (simp add: send_message_def Let_def split: prod.splits)
  obtain ttl p2 where t: "(if length (messages_of (SessionLocal d) (c_id c) (scan_messages e)) = 0
              then AIService_generate_chat_title e p1 content else ([], p1)) = (ttl, p2)"
    by fastforce
  then have p2: "p2 = (if length (messages_of (SessionLocal d) chat_id (scan_messages e)) = 0
                       then snd (AIService_generate_chat_title e p1 content) else p1)"
    by (auto simp: cid split: if_splits)
  have "snd (send_message e now p d chat_id content usr)
           = (case r of
                Inl err \<Rightarrow> p1
              | Inr reply \<Rightarrow>
                  (if length (messages_of (SessionLocal d) chat_id (scan_messages e)) = 0
                   then snd (AIService_generate_chat_title e p1 content) else p1))
        \<and> (\<exists>new. messages (fst (fst (send_message e now p d chat_id content usr)))
                 = messages d @ new)"
  proof (cases r)
    case (Inl err)
    with respond_Inl [OF g [folded cid, unfolded Inl], of now] show ?thesis
      by (simp add: send finish_def close_def SessionLocal_def)
  next
    case (Inr reply)
    define retitle where "retitle = (length (messages_of (SessionLocal d) (c_id c) (scan_messages e)) = 0
                                      \<and> ttl \<noteq> [] \<and> ttl \<noteq> ''New Chat'')"
    define c2 where "c2 = (if retitle
               then c\<lparr>c_message_count := length (messages_of (SessionLocal d) (c_id c) (scan_messages e)) + 2,
                      c_title := ttl\<rparr>
               else c\<lparr>c_message_count := length (messages_of (SessionLocal d) (c_id c) (scan_messages e)) + 2\<rparr>)"
    define um where "um = \<lparr>m_id = uuid4_1 e, m_chat_id = c_id c, m_role = USER, m_content = content,
                m_created_at = utcnow (tick1 e) now\<rparr>"
    define am where "am = \<lparr>m_id = uuid4_2 e, m_chat_id = c_id c, m_role = ASSISTANT, m_content = reply,
                m_created_at = utcnow (tick3 e) (utcnow (tick2 e) (utcnow (tick1 e) now))\<rparr>"
    define t2 where "t2 = utcnow (tick2 e) (utcnow (tick1 e) now)"
    define flushed where "flushed = (if c2 = c then add_message um (SessionLocal d)
                    else (add_message um (SessionLocal d))\<lparr>pending :=
                           (pending (add_message um (SessionLocal d)))\<lparr>chats :=
                           map (\<lambda>x. if c_id x = c_id c then c2\<lparr>c_updated_at := t2\<rparr> else x)
                               (chats (pending (add_message um (SessionLocal d))))\<rparr>\<rparr>)"
    define row where "row = (if c2 = c then c else c2\<lparr>c_updated_at := t2\<rparr>)"
    note R = respond_Inr [OF g [folded cid, unfolded Inr] t retitle_def c2_def um_def am_def
                             t2_def flushed_def row_def]
    show ?thesis
    proof (cases "commit (commit_ok e) (add_message am flushed)")
      case (Inl err)
      with R Inr p2 show ?thesis
        by (simp add: send finish_def close_def SessionLocal_def)
    next
      case cm: (Inr db3)
      from commit_Inr [OF cm] have "messages (close db3) = messages d @ [um, am]"
        by (simp add: flushed_def flushed_rows)
      with R Inr p2 cm show ?thesis
        by (simp add: send finish_def)
    qed
  qed
  then show "snd (send_message e now p d chat_id content usr)
           = (case r of
                Inl err \<Rightarrow> p1
              | Inr reply \<Rightarrow>
                  (if length (messages_of (SessionLocal d) chat_id (scan_messages e)) = 0
                   then snd (AIService_generate_chat_title e p1 content) else p1))"
    and "\<exists>new. messages (fst (fst (send_message e now p d chat_id content usr)))
                 = messages d @ new"
    by blast+
qed

lemma response_messages_eq:
  "response_messages e content h
     = (Role_system, NUPAT_AI_SYSTEM_PROMPT e)
       # map (\<lambda>m. (case m_role m of USER \<Rightarrow> Role_user | ASSISTANT \<Rightarrow> Role_assistant,
                    m_content m))
           (drop (length h - 10) h)
       @ [(Role_user, content)]"
proof -
  have "api_role_of r = (case r of USER \<Rightarrow> Role_user | ASSISTANT \<Rightarrow> Role_assistant)" for r
    by (cases r) (simp_all add: api_role_of_def)
  then show ?thesis
    by (simp add: response_messages_def recent_messages_def)
qed

text \<open>
  Claim C3. For a send that reaches the provider (a valid request on the caller's chat),
  the first request the provider receives during the send carries: the system prompt,
  then the last \<open>min 10 n\<close> of the chat's \<open>n\<close> prior messages, which are in ascending
  creation order, each with its role and content, then the new content with role user.
  At most one further request follows (the title request). Every row that was in the
  message table is still there afterwards.
\<close>

theorem send_message_context_window:
  assumes "content \<noteq> []"
    and "ChatService_get_chat_by_id (SessionLocal d) chat_id usr = Inr c"
  shows "\<exists>req rest.
           received (snd (send_message e now p d chat_id content usr)) = received p @ req # rest
         \<and> length rest \<le> 1
         \<and> req_messages req
             = (Role_system, NUPAT_AI_SYSTEM_PROMPT e)
               # map (\<lambda>m. (case m_role m of USER \<Rightarrow> Role_user | ASSISTANT \<Rightarrow> Role_assistant,
                            m_content m))
                   (drop (length (messages_of (SessionLocal d) chat_id (scan_messages e)) - 10)
                         (messages_of (SessionLocal d) chat_id (scan_messages e)))
               @ [(Role_user, content)]
         \<and> length (drop (length (messages_of (SessionLocal d) chat_id (scan_messages e)) - 10)
                         (messages_of (SessionLocal d) chat_id (scan_messages e)))
             = min 10 (length (messages_of (SessionLocal d) chat_id (scan_messages e)))
         \<and> sorted (map m_created_at (messages_of (SessionLocal d) chat_id (scan_messages e)))
         \<and> set (messages_of (SessionLocal d) chat_id (scan_messages e))
             = Set.filter (\<lambda>m. m_chat_id m = chat_id) (set (messages d))
         \<and> (\<exists>new. messages (fst (fst (send_message e now p d chat_id content usr)))
                     = messages d @ new)"
proof -
  obtain r p1 where
    g: "AIService_generate_response e p content (messages_of (SessionLocal d) chat_id (scan_messages e)) = (r, p1)"
    by fastforce
  let ?req = "\<lparr>req_messages = response_messages e content (messages_of (SessionLocal d) chat_id (scan_messages e)),
               req_temperature = 7 / 10, req_max_tokens = 2048,
               req_top_p = Some (95 / 100)\<rparr>"
  from g generate_response_received [of e p content "messages_of (SessionLocal d) chat_id (scan_messages e)"]
  have p1: "received p1 = received p @ [?req]"
    by simp
  note S = send_message_provider [OF assms g, of now]
  have "\<exists>rest. received (snd (send_message e now p d chat_id content usr))
                  = received p @ ?req # rest \<and> length rest \<le> 1"
    using S(1) p1
    by (cases r) (simp_all add: generate_chat_title_received)
  moreover have "sorted (map m_created_at (messages_of (SessionLocal d) chat_id (scan_messages e)))"
    by (simp add: messages_of_def order_by_sorted)
  moreover have "set (messages_of (SessionLocal d) chat_id (scan_messages e))
             = Set.filter (\<lambda>m. m_chat_id m = chat_id) (set (messages d))"
    by (auto simp: messages_of_def order_by_set SessionLocal_def)
  ultimately show ?thesis
    using S(2) response_messages_eq [of e content "messages_of (SessionLocal d) chat_id (scan_messages e)"]
    by (auto simp: min_def)
qed

theorem send_message_context_window_witness:
  "''Hi'' \<noteq> []
   \<and> ChatService_get_chat_by_id (SessionLocal db12) 2 bob = Inr (chat2\<lparr>c_message_count := 12\<rparr>)
   \<and> messages_of (SessionLocal db12) 2 (scan_messages env0) = map nth_msg [0, 1, 2, 3, 4, 5, 6, 7, 8, 9, 10, 11]
   \<and> (\<exists>req rest.
          received (snd (send_message env0 20 (says ''Hello'') db12 2 ''Hi'' bob)) = req # rest
        \<and> req_messages req
            = [(Role_system, ''You are NupatAI''),
               (Role_user, ''m''), (Role_assistant, ''m''), (Role_user, ''m''),
               (Role_assistant, ''m''), (Role_user, ''m''), (Role_assistant, ''m''),
               (Role_user, ''m''), (Role_assistant, ''m''), (Role_user, ''m''),
               (Role_assistant, ''m''), (Role_user, ''Hi'')])"
proof -
  have c: "ChatService_get_chat_by_id (SessionLocal db12) 2 bob = Inr (chat2\<lparr>c_message_count := 12\<rparr>)"
    by (simp add: ChatService_get_chat_by_id_def SessionLocal_def db12_def example_defs)
  have h: "messages_of (SessionLocal db12) 2 (scan_messages env0) = map nth_msg [0, 1, 2, 3, 4, 5, 6, 7, 8, 9, 10, 11]"
    by (simp add: messages_of_def order_by_def SessionLocal_def db12_def nth_msg_def env0_def)
  have n: "''Hi'' \<noteq> []" by simp
  from send_message_context_window [OF n c, of env0 20 "says ''Hello''"]
  obtain req rest where
    "received (snd (send_message env0 20 (says ''Hello'') db12 2 ''Hi'' bob))
       = received (says ''Hello'') @ req # rest"
    "req_messages req
             = (Role_system, NUPAT_AI_SYSTEM_PROMPT env0)
               # map (\<lambda>m. (case m_role m of USER \<Rightarrow> Role_user | ASSISTANT \<Rightarrow> Role_assistant,
                            m_content m))
                   (drop (length (messages_of (SessionLocal db12) 2 (scan_messages env0)) - 10)
                         (messages_of (SessionLocal db12) 2 (scan_messages env0)))
               @ [(Role_user, ''Hi'')]"
    by blast
  then have "received (snd (send_message env0 20 (says ''Hello'') db12 2 ''Hi'' bob)) = req # rest
        \<and> req_messages req
            = [(Role_system, ''You are NupatAI''),
               (Role_user, ''m''), (Role_assistant, ''m''), (Role_user, ''m''),
               (Role_assistant, ''m''), (Role_user, ''m''), (Role_assistant, ''m''),
               (Role_user, ''m''), (Role_assistant, ''m''), (Role_user, ''m''),
               (Role_assistant, ''m''), (Role_user, ''Hi'')]"
    by (simp add: h) (simp add: says_def env0_def nth_msg_def)
  with n c h show ?thesis by blast
qed



section \<open>The generated title\<close>

text \<open>
  Claim C6 at two inputs. The first message of \<open>alice\<close> in her empty chat titled
  \<open>"New Chat"\<close>, with a provider that answers \<open>quoted_title\<close>: the send succeeds, a title
  is reported as generated, and the title begins and ends with a quote character, since
  the quotes are stripped before the words are cut to six. And the title generated from
  \<open>padded_title\<close>, which has six words between its quotes, has seven: the ellipsis that the cut to 200
  characters appends stands after a space.
\<close>

theorem first_message_title_keeps_quotes:
  "messages_of (SessionLocal db0) 1 (scan_messages env0) = []
   \<and> map_sum id c_title (ChatService_get_chat_by_id (SessionLocal db0) 1 alice) = Inr ''New Chat''
   \<and> (\<exists>d' s p'. send_message env0 10 (says quoted_title) db0 1 ''Hi'' alice = ((d', Inr s), p')
         \<and> sent_title_generated s
         \<and> c_title (sent_chat s) = [CHR 0x27] @ ''a b c d e f'' @ [CHR 0x27]
         \<and> isquote (hd (c_title (sent_chat s))) \<and> isquote (last (c_title (sent_chat s))))
   \<and> length (split (strip_chars isquote (strip padded_title))) = 6
   \<and> length (split (fst (AIService_generate_chat_title env0 (says padded_title) ''Hi''))) = 7
   \<and> length (fst (AIService_generate_chat_title env0 (says padded_title) ''Hi'')) = 200"
proof -
  have 1: "messages_of (SessionLocal db0) 1 (scan_messages env0) = []"
    by (simp add: messages_of_def order_by_def SessionLocal_def db0_def)
  have 2: "map_sum id c_title (ChatService_get_chat_by_id (SessionLocal db0) 1 alice) = Inr ''New Chat''"
    by (simp add: ChatService_get_chat_by_id_def SessionLocal_def example_defs)
  have 3: "\<exists>d' s p'. send_message env0 10 (says quoted_title) db0 1 ''Hi'' alice = ((d', Inr s), p')
         \<and> sent_title_generated s
         \<and> c_title (sent_chat s) = [CHR 0x27] @ ''a b c d e f'' @ [CHR 0x27]
         \<and> isquote (hd (c_title (sent_chat s))) \<and> isquote (last (c_title (sent_chat s)))"
    by (simp add: send_defs example_defs quoted_title_def)
  have 4: "length (split (strip_chars isquote (strip padded_title))) = 6"
    unfolding padded_title_def by code_simp
  have t: "fst (AIService_generate_chat_title env0 (says padded_title) ''Hi'')
             = clean_title (strip padded_title)" "strip padded_title \<noteq> []"
    by (simp_all add: AIService_generate_chat_title_def create_def says_def Let_def
          padded_title_def strip_def strip_chars_def isspace_def)
  have 5: "length (split (fst (AIService_generate_chat_title env0 (says padded_title) ''Hi''))) = 7"
    unfolding t padded_title_def by code_simp
  have 6: "length (fst (AIService_generate_chat_title env0 (says padded_title) ''Hi'')) = 200"
    unfolding t padded_title_def by code_simp
  from 1 2 3 4 5 6 show ?thesis by blast
qed


section \<open>When a title is generated\<close>

lemma generate_chat_title_respond:
  "respond p1 = respond p \<Longrightarrow>
   fst (AIService_generate_chat_title e p1 content) = fst (AIService_generate_chat_title e p content)"
  by (simp add: AIService_generate_chat_title_def create_def)

lemma generate_response_respond:
  "respond (snd (AIService_generate_response e p content h)) = respond p"
  by (simp add: generate_response_received)

lemma messages_of_Nil:
  "messages_of (SessionLocal d) cid sc = [] \<longleftrightarrow> filter (\<lambda>m. m_chat_id m = cid) (messages d) = []"
  by (simp add: messages_of_def SessionLocal_def order_by_Nil)

text \<open>
  Claim C10, as the code has it. Take a \<open>send_message\<close> that passes validation, on a
  chat of the caller's, whose reply is generated, and let \<open>t\<close> be what
  \<open>generate_chat_title\<close> yields for the content. The provider receives the request for
  the reply and then, exactly when the chat has no prior messages, the title request.
  The send succeeds when the database accepts the commit. When it succeeds on a chat with
  no prior messages and \<open>t\<close> is neither empty nor \<open>"New Chat"\<close>, \<open>title_generated\<close> is
  true and \<open>t\<close> is the title of the chat returned, which is the chat's row in the database
  afterwards: whatever the old title was. In every other case \<open>title_generated\<close> is false
  and the title stays.
\<close>

theorem title_generation_only_if_first:
  assumes ne: "content \<noteq> []"
    and old: "ChatService_get_chat_by_id (SessionLocal d) chat_id usr = Inr c"
    and reply: "fst (AIService_generate_response e p content
                       (messages_of (SessionLocal d) chat_id (scan_messages e))) = Inr reply"
  shows "received (snd (send_message e now p d chat_id content usr))
           = received p
             @ [response_request e content
                  (messages_of (SessionLocal d) chat_id (scan_messages e))]
             @ (if filter (\<lambda>m. m_chat_id m = chat_id) (messages d) = []
                then [title_request e content] else [])
       \<and> (commit_ok e \<longrightarrow>
            (\<exists>d' s p'. send_message e now p d chat_id content usr = ((d', Inr s), p')))
       \<and> (\<forall>d' s p'. send_message e now p d chat_id content usr = ((d', Inr s), p') \<longrightarrow>
            sent_title_generated s
              = (filter (\<lambda>m. m_chat_id m = chat_id) (messages d) = []
                 \<and> fst (AIService_generate_chat_title e p content) \<noteq> []
                 \<and> fst (AIService_generate_chat_title e p content) \<noteq> ''New Chat'')
          \<and> c_title (sent_chat s)
              = (if sent_title_generated s then fst (AIService_generate_chat_title e p content)
                 else c_title c)
          \<and> ChatService_get_chat_by_id (SessionLocal d') chat_id usr = Inr (sent_chat s))"
proof (intro conjI allI impI)
  let ?h = "messages_of (SessionLocal d) chat_id (scan_messages e)"
  let ?empty = "filter (\<lambda>m. m_chat_id m = chat_id) (messages d) = []"
  obtain p1 where g: "AIService_generate_response e p content ?h = (Inr reply, p1)"
    using reply by (metis prod.collapse)
  from g generate_response_received [of e p content ?h]
  have p1: "p1 = p\<lparr>received := received p @ [response_request e content ?h]\<rparr>"
    by (simp add: response_request_def)
  then have same: "fst (AIService_generate_chat_title e p1 content)
                     = fst (AIService_generate_chat_title e p content)"
    by (intro generate_chat_title_respond) simp
  have empty: "(length ?h = 0) = ?empty"
    by (simp add: messages_of_Nil)
  show "received (snd (send_message e now p d chat_id content usr))
           = received p @ [response_request e content ?h]
             @ (if ?empty then [title_request e content] else [])"
    using send_message_provider(1) [OF ne old g, of now] p1 empty
    by (simp add: generate_chat_title_received title_request_def)
  show "\<exists>d' s p'. send_message e now p d chat_id content usr = ((d', Inr s), p')"
    if "commit_ok e"
    using send_message_succeeds [OF ne old reply that] .
  fix d' s p'
  assume run: "send_message e now p d chat_id content usr = ((d', Inr s), p')"
  from send_message_Inr [OF run] obtain c' reply' p1' ttl c2 where
    c': "ChatService_get_chat_by_id (SessionLocal d) chat_id usr = Inr c'"
    and g': "AIService_generate_response e p content ?h = (Inr reply', p1')"
    and t: "(if length ?h = 0
              then AIService_generate_chat_title e p1' content else ([], p1')) = (ttl, p')"
    and tg: "sent_title_generated s = (length ?h = 0 \<and> ttl \<noteq> [] \<and> ttl \<noteq> ''New Chat'')"
    and c2': "c2 = (if sent_title_generated s
                   then c'\<lparr>c_message_count := length ?h + 2, c_title := ttl\<rparr>
                   else c'\<lparr>c_message_count := length ?h + 2\<rparr>)"
    and sc': "sent_chat s
             = (if c2 = c' then c' else c2\<lparr>c_updated_at := now + int (tick1 e) + int (tick2 e)\<rparr>)"
    by blast
  from c' old have "c' = c" by simp
  note c2 = c2' [unfolded this] and sc = sc' [unfolded this]
  from g g' have "p1' = p1" by simp
  note t = t [unfolded this]
  have title2: "c_title c2 = (if sent_title_generated s then ttl else c_title c)"
    by (simp add: c2)
  have "c_title (sent_chat s) = c_title c2"
    by (cases "c2 = c") (simp_all add: sc)
  with title2 have title: "c_title (sent_chat s) = (if sent_title_generated s then ttl else c_title c)"
    by simp
  have ttl: "length ?h = 0 \<Longrightarrow> ttl = fst (AIService_generate_chat_title e p content)"
    using t same by (simp add: prod_eq_iff)
  show "sent_title_generated s
              = (?empty
                 \<and> fst (AIService_generate_chat_title e p content) \<noteq> []
                 \<and> fst (AIService_generate_chat_title e p content) \<noteq> ''New Chat'')"
    using tg ttl empty by auto
  show "c_title (sent_chat s)
              = (if sent_title_generated s then fst (AIService_generate_chat_title e p content)
                 else c_title c)"
    using title tg ttl by auto
  show "ChatService_get_chat_by_id (SessionLocal d') chat_id usr = Inr (sent_chat s)"
    by (rule send_message_stored_chat [OF run])
qed

theorem title_generation_only_if_first_witness:
  "ChatService_get_chat_by_id (SessionLocal db0) 2 bob = Inr chat2
   \<and> c_title chat2 = ''Trade'' \<and> filter (\<lambda>m. m_chat_id m = 2) (messages db0) = []
   \<and> fst (AIService_generate_chat_title env0 (says ''Hello'') ''Hi'') = ''Hello''
   \<and> (\<exists>d' s p'. send_message env0 10 (says ''Hello'') db0 2 ''Hi'' bob = ((d', Inr s), p')
          \<and> received p' = [response_request env0 ''Hi'' [], title_request env0 ''Hi'']
          \<and> sent_title_generated s
          \<and> c_title (sent_chat s) = ''Hello''
          \<and> ChatService_get_chat_by_id (SessionLocal d') 2 bob = Inr (sent_chat s))
   \<and> ChatService_get_chat_by_id (SessionLocal db1) 1 alice = Inr (hd (chats db1))
   \<and> filter (\<lambda>m. m_chat_id m = 1) (messages db1) = [msg1, msg2]
   \<and> (\<exists>d' s p'. send_message env0 10 (says ''Hello'') db1 1 ''Hi'' alice = ((d', Inr s), p')
          \<and> received p' = [response_request env0 ''Hi'' [msg1, msg2]]
          \<and> \<not> sent_title_generated s
          \<and> c_title (sent_chat s) = ''AfCFTA Basics''
          \<and> ChatService_get_chat_by_id (SessionLocal d') 1 alice = Inr (sent_chat s))"
proof -
  have c0: "ChatService_get_chat_by_id (SessionLocal db0) 2 bob = Inr chat2"
    and c1: "ChatService_get_chat_by_id (SessionLocal db1) 1 alice = Inr (hd (chats db1))"
    by (simp_all add: ChatService_get_chat_by_id_def SessionLocal_def example_defs)
  have m0: "filter (\<lambda>m. m_chat_id m = 2) (messages db0) = []"
    and m1: "filter (\<lambda>m. m_chat_id m = 1) (messages db1) = [msg1, msg2]"
    by (simp_all add: example_defs)
  have h0: "messages_of (SessionLocal db0) 2 (scan_messages env0) = []"
    and h1: "messages_of (SessionLocal db1) 1 (scan_messages env0) = [msg1, msg2]"
    by (simp_all add: messages_of_def order_by_def SessionLocal_def example_defs)
  have t0: "fst (AIService_generate_chat_title env0 (says ''Hello'') ''Hi'') = ''Hello''"
    by (simp add: send_defs says_def)
  have g0: "fst (AIService_generate_response env0 (says ''Hello'') ''Hi''
                   (messages_of (SessionLocal db0) 2 (scan_messages env0))) = Inr ''Hello''"
    and g1: "fst (AIService_generate_response env0 (says ''Hello'') ''Hi''
                   (messages_of (SessionLocal db1) 1 (scan_messages env0))) = Inr ''Hello''"
    by (simp_all add: AIService_generate_response_def create_def says_def strip_def
          strip_chars_def isspace_def)
  have ok: "commit_ok env0" by (simp add: env0_def)
  have n: "''Hi'' \<noteq> []" by simp
  have title1: "c_title (hd (chats db1)) = ''AfCFTA Basics''"
    by (simp add: example_defs)
  note T0 = title_generation_only_if_first [OF n c0 g0, of 10]
  note T1 = title_generation_only_if_first [OF n c1 g1, of 10]
  from T0 ok obtain d0' s0 p0' where
    r0: "send_message env0 10 (says ''Hello'') db0 2 ''Hi'' bob = ((d0', Inr s0), p0')"
    by blast
  from T1 ok obtain d1' s1 p1' where
    r1: "send_message env0 10 (says ''Hello'') db1 1 ''Hi'' alice = ((d1', Inr s1), p1')"
    by blast
  from T0 [THEN conjunct1] r0 m0 h0
  have a1: "received p0' = [response_request env0 ''Hi'' [], title_request env0 ''Hi'']"
    by (simp add: says_def)
  from T0 [THEN conjunct2, THEN conjunct2, rule_format, OF r0] m0 t0
  have a2: "sent_title_generated s0 \<and> c_title (sent_chat s0) = ''Hello''
            \<and> ChatService_get_chat_by_id (SessionLocal d0') 2 bob = Inr (sent_chat s0)"
    by simp
  from T1 [THEN conjunct1] r1 m1 h1
  have b1: "received p1' = [response_request env0 ''Hi'' [msg1, msg2]]"
    by (simp add: says_def)
  from T1 [THEN conjunct2, THEN conjunct2, rule_format, OF r1] m1 title1
  have b2: "\<not> sent_title_generated s1 \<and> c_title (sent_chat s1) = ''AfCFTA Basics''
            \<and> ChatService_get_chat_by_id (SessionLocal d1') 1 alice = Inr (sent_chat s1)"
    by simp
  have "c_title chat2 = ''Trade''" by (simp add: chat2_def)
  with a1 a2 b1 b2 r0 r1 c0 c1 m0 m1 t0 show ?thesis by blast
qed

text \<open>
  The claim as written covers every send on a chat with no prior messages. The chat of
  \<open>bob\<close> in \<open>db0\<close> has none; with a provider whose calls raise, the send fails with
  status 500 after the request for the reply, and no title request is made.
\<close>

theorem title_generation_skipped_counterexample:
  "filter (\<lambda>m. m_chat_id m = 2) (messages db0) = []
   \<and> received (snd (send_message env0 10 down db0 2 ''Hi'' bob))
       = [response_request env0 ''Hi'' []]
   \<and> title_request env0 ''Hi''
       \<notin> set (received (snd (send_message env0 10 down db0 2 ''Hi'' bob)))
   \<and> map_sum status_code (\<lambda>s. ()) (snd (fst (send_message env0 10 down db0 2 ''Hi'' bob)))
       = Inl 500"
  by (simp add: send_defs example_defs down_def response_request_def title_request_def)


section \<open>Pagination\<close>

lemma offset_limit_page:
  assumes "1 \<le> sz" "sz \<le> 100" "1 \<le> k" "(int k - 1) * sz < 2 ^ 63"
  shows "offset_limit ((int k - 1) * sz) sz xs = Inr (take (nat sz) (drop ((k - 1) * nat sz) xs))"
proof -
  from assms have "nat ((int k - 1) * sz) = (k - 1) * nat sz"
    by (simp add: nat_mult_distrib of_nat_diff)
  moreover from assms have "0 \<le> (int k - 1) * sz"
    by (intro mult_nonneg_nonneg) auto
  moreover have "sz < 2 ^ 63"
    using assms(2) by simp
  ultimately have "\<not> ((int k - 1) * sz < 0 \<or> sz < 0 \<or> 2 ^ 63 \<le> (int k - 1) * sz \<or> 2 ^ 63 \<le> sz)"
    and "nat ((int k - 1) * sz) = (k - 1) * nat sz"
    using assms by linarith+
  then show ?thesis
    by (simp only: offset_limit_def if_False)
qed

lemma offset_limit_beyond:
  "2 ^ 63 \<le> off \<Longrightarrow> offset_limit off sz xs = Inl SQLAlchemyError"
  by (simp add: offset_limit_def)

lemma concat_pages:
  "concat (map (\<lambda>k. take s (drop ((k - 1) * s) xs)) [1..<Suc n]) = take (n * s) xs"
proof (induction n)
  case 0
  show ?case by simp
next
  case (Suc n)
  have "take (n * s) xs @ take s (drop (n * s) xs) = take (n * s + s) xs"
    by (simp add: take_add)
  with Suc show ?case
    by (simp add: add.commute)
qed

text \<open>
  When the rows differ pairwise on the column, the scan has no say: every execution of
  the ordered query yields the same list.
\<close>

lemma filter_key_distinct:
  "distinct (map f xs) \<Longrightarrow> k \<in> set xs \<Longrightarrow> filter (\<lambda>x. f k = f x) xs = [k]"
  by (induction xs) (auto simp: filter_empty_conv image_iff)

lemma order_by_distinct:
  assumes "distinct (map f xs)"
  shows "order_by f sc xs = sort_key f xs"
proof (rule properties_for_sort_key [symmetric])
  show "mset (order_by f sc xs) = mset xs"
    by (rule order_by_mset)
  show "sorted (map f (order_by f sc xs))"
    by (rule order_by_sorted)
next
  fix k assume "k \<in> set (order_by f sc xs)"
  then have k: "k \<in> set xs" by (simp add: order_by_set)
  have "filter (\<lambda>x. f k = f x) (order_by f sc xs)
          = filter (\<lambda>x. f k = f x) (sort_key sc xs)"
    unfolding order_by_def
    using sort_key_stable [of f "f k" "sort_key sc xs"] by (simp add: eq_commute)
  also have "\<dots> = sort_key sc (filter (\<lambda>x. f k = f x) xs)"
    by (simp add: filter_sort)
  also have "\<dots> = [k]"
    by (simp add: filter_key_distinct [OF assms k])
  finally show "filter (\<lambda>x. f k = f x) (order_by f sc xs) = filter (\<lambda>x. f k = f x) xs"
    by (simp add: filter_key_distinct [OF assms k])
qed

lemma distinct_map_uminus:
  "distinct (map (\<lambda>x. - f x) xs) = distinct (map (f :: 'a \<Rightarrow> int) xs)"
  by (simp add: distinct_map inj_on_def)

lemma message_page:
  assumes "1 \<le> sz" "sz \<le> 100" "1 \<le> k" "(int k - 1) * sz < 2 ^ 63"
    and "distinct (map m_created_at (filter (\<lambda>m. m_chat_id m = c_id c) (messages (pending db))))"
  shows "MessageService_get_chat_messages sc db c (int k) sz
           = Inr (take (nat sz) (drop ((k - 1) * nat sz)
                    (sort_key m_created_at
                       (filter (\<lambda>m. m_chat_id m = c_id c) (messages (pending db))))),
                  int (length (filter (\<lambda>m. m_chat_id m = c_id c) (messages (pending db)))))"
  by (simp add: MessageService_get_chat_messages_def offset_limit_page [OF assms(1-4)] Let_def
        messages_of_def order_by_distinct [OF assms(5)])

lemma chat_page:
  assumes "1 \<le> sz" "sz \<le> 100" "1 \<le> k" "(int k - 1) * sz < 2 ^ 63"
    and "distinct (map c_updated_at (filter (\<lambda>c. c_user_id c = u_id usr) (chats (pending db))))"
  shows "ChatService_get_user_chats sc db usr (int k) sz
           = Inr (take (nat sz) (drop ((k - 1) * nat sz)
                    (sort_key (\<lambda>c. - c_updated_at c)
                       (filter (\<lambda>c. c_user_id c = u_id usr) (chats (pending db))))),
                  int (length (filter (\<lambda>c. c_user_id c = u_id usr) (chats (pending db)))))"
proof -
  from assms(5)
  have "distinct (map (\<lambda>c. - c_updated_at c)
                    (filter (\<lambda>c. c_user_id c = u_id usr) (chats (pending db))))"
    by (simp only: distinct_map_uminus)
  then show ?thesis
    by (simp add: ChatService_get_user_chats_def offset_limit_page [OF assms(1-4)] Let_def
        chats_of_def order_by_distinct)
qed

lemma page_offset_le:
  assumes "1 \<le> sz" "(int n - 1) * sz < 2 ^ 63" "k \<in> set [1..<Suc n]"
  shows "1 \<le> k \<and> (int k - 1) * sz < 2 ^ 63"
proof -
  from assms(3) have k: "1 \<le> k" "k \<le> n" by auto
  then have "int k - 1 \<le> int n - 1" by simp
  then have "(int k - 1) * sz \<le> (int n - 1) * sz"
    using assms(1) by (intro mult_right_mono) auto
  with assms(2) k show ?thesis by linarith
qed

lemma message_pages_eq:
  assumes "1 \<le> sz" "sz \<le> 100" "(int n - 1) * sz < 2 ^ 63"
    and "distinct (map m_created_at (filter (\<lambda>m. m_chat_id m = c_id c) (messages (pending db))))"
  shows "message_pages scs db c sz n
           = map (\<lambda>k. take (nat sz) (drop ((k - 1) * nat sz)
                    (sort_key m_created_at
                       (filter (\<lambda>m. m_chat_id m = c_id c) (messages (pending db))))))
                 [1..<Suc n]"
  unfolding message_pages_def
proof (rule map_cong [OF refl])
  fix k assume "k \<in> set [1..<Suc n]"
  from page_offset_le [OF assms(1,3) this]
  have k: "1 \<le> k" "(int k - 1) * sz < 2 ^ 63" by simp_all
  show "(case MessageService_get_chat_messages (scs k) db c (int k) sz of
                 Inl err \<Rightarrow> [] | Inr (rows, n) \<Rightarrow> rows)
             = take (nat sz) (drop ((k - 1) * nat sz)
                    (sort_key m_created_at
                       (filter (\<lambda>m. m_chat_id m = c_id c) (messages (pending db)))))"
    by (simp add: message_page [OF assms(1,2) k assms(4)])
qed

lemma chat_pages_eq:
  assumes "1 \<le> sz" "sz \<le> 100" "(int n - 1) * sz < 2 ^ 63"
    and "distinct (map c_updated_at (filter (\<lambda>c. c_user_id c = u_id usr) (chats (pending db))))"
  shows "chat_pages scs db usr sz n
           = map (\<lambda>k. take (nat sz) (drop ((k - 1) * nat sz)
                    (sort_key (\<lambda>c. - c_updated_at c)
                       (filter (\<lambda>c. c_user_id c = u_id usr) (chats (pending db))))))
                 [1..<Suc n]"
  unfolding chat_pages_def
proof (rule map_cong [OF refl])
  fix k assume "k \<in> set [1..<Suc n]"
  from page_offset_le [OF assms(1,3) this]
  have k: "1 \<le> k" "(int k - 1) * sz < 2 ^ 63" by simp_all
  show "(case ChatService_get_user_chats (scs k) db usr (int k) sz of
                 Inl err \<Rightarrow> [] | Inr (rows, n) \<Rightarrow> rows)
             = take (nat sz) (drop ((k - 1) * nat sz)
                    (sort_key (\<lambda>c. - c_updated_at c)
                       (filter (\<lambda>c. c_user_id c = u_id usr) (chats (pending db)))))"
    by (simp add: chat_page [OF assms(1,2) k assms(4)])
qed

text \<open>
  Claim C8, as the code has it. Every page is a query of its own, ordered by one column
  and nothing else. Take a page size in \<open>[1, 100]\<close> and a chat whose messages differ
  pairwise in their creation time. Then every execution of the ordered query yields the
  same sequence, the chat's messages in ascending order of creation; page \<open>k\<close> of
  \<open>list_messages\<close> holds its rows at the positions from \<open>(k - 1) * page_size\<close> up to
  \<open>k * page_size\<close>, whenever that offset is below \<open>2 ^ 63\<close>, so two pages share no
  position; and the pages \<open>1\<close> to \<open>n\<close> in a row are that whole sequence as soon as \<open>n\<close>
  pages can hold it. The same holds of \<open>list_chats\<close> for a user whose chats differ
  pairwise in their time of update, with the chats most recently updated first. A page
  whose offset is \<open>2 ^ 63\<close> or more is refused by the database.
\<close>

theorem pages_concat_to_all:
  assumes "1 \<le> sz" and "sz \<le> 100"
  shows "(distinct (map m_created_at
                     (filter (\<lambda>m. m_chat_id m = c_id c) (messages (pending db)))) \<longrightarrow>
            (\<forall>sc. messages_of db (c_id c) sc
                    = sort_key m_created_at
                        (filter (\<lambda>m. m_chat_id m = c_id c) (messages (pending db))))
          \<and> (\<forall>sc k. 1 \<le> k \<and> (int k - 1) * sz < 2 ^ 63 \<longrightarrow>
                MessageService_get_chat_messages sc db c (int k) sz
                  = Inr (take (nat sz) (drop ((k - 1) * nat sz)
                           (sort_key m_created_at
                              (filter (\<lambda>m. m_chat_id m = c_id c) (messages (pending db))))),
                         int (length (filter (\<lambda>m. m_chat_id m = c_id c)
                                        (messages (pending db))))))
          \<and> (\<forall>scs. length (filter (\<lambda>m. m_chat_id m = c_id c) (messages (pending db)))
                       \<le> n * nat sz
                     \<and> (int n - 1) * sz < 2 ^ 63 \<longrightarrow>
                concat (message_pages scs db c sz n)
                  = sort_key m_created_at
                      (filter (\<lambda>m. m_chat_id m = c_id c) (messages (pending db)))))
       \<and> sorted (map m_created_at
                   (sort_key m_created_at
                      (filter (\<lambda>m. m_chat_id m = c_id c) (messages (pending db)))))
       \<and> mset (sort_key m_created_at
                  (filter (\<lambda>m. m_chat_id m = c_id c) (messages (pending db))))
            = filter_mset (\<lambda>m. m_chat_id m = c_id c) (mset (messages (pending db)))
       \<and> (distinct (map c_updated_at
                       (filter (\<lambda>c. c_user_id c = u_id usr) (chats (pending db)))) \<longrightarrow>
            (\<forall>sc. chats_of db (u_id usr) sc
                    = sort_key (\<lambda>c. - c_updated_at c)
                        (filter (\<lambda>c. c_user_id c = u_id usr) (chats (pending db))))
          \<and> (\<forall>sc k. 1 \<le> k \<and> (int k - 1) * sz < 2 ^ 63 \<longrightarrow>
                ChatService_get_user_chats sc db usr (int k) sz
                  = Inr (take (nat sz) (drop ((k - 1) * nat sz)
                           (sort_key (\<lambda>c. - c_updated_at c)
                              (filter (\<lambda>c. c_user_id c = u_id usr) (chats (pending db))))),
                         int (length (filter (\<lambda>c. c_user_id c = u_id usr)
                                        (chats (pending db))))))
          \<and> (\<forall>scs. length (filter (\<lambda>c. c_user_id c = u_id usr) (chats (pending db)))
                       \<le> n * nat sz
                     \<and> (int n - 1) * sz < 2 ^ 63 \<longrightarrow>
                concat (chat_pages scs db usr sz n)
                  = sort_key (\<lambda>c. - c_updated_at c)
                      (filter (\<lambda>c. c_user_id c = u_id usr) (chats (pending db)))))
       \<and> sorted_wrt (\<lambda>a b. c_updated_at a \<ge> c_updated_at b)
            (sort_key (\<lambda>c. - c_updated_at c)
               (filter (\<lambda>c. c_user_id c = u_id usr) (chats (pending db))))
       \<and> mset (sort_key (\<lambda>c. - c_updated_at c)
                  (filter (\<lambda>c. c_user_id c = u_id usr) (chats (pending db))))
            = filter_mset (\<lambda>c. c_user_id c = u_id usr) (mset (chats (pending db)))
       \<and> (\<forall>sc sc' k. 2 ^ 63 \<le> (int k - 1) * sz \<longrightarrow>
             MessageService_get_chat_messages sc db c (int k) sz = Inl SQLAlchemyError
           \<and> ChatService_get_user_chats sc' db usr (int k) sz = Inl SQLAlchemyError)"
proof -
  let ?ms = "filter (\<lambda>m. m_chat_id m = c_id c) (messages (pending db))"
  let ?cs = "filter (\<lambda>c. c_user_id c = u_id usr) (chats (pending db))"
  have m: "(\<forall>sc. messages_of db (c_id c) sc = sort_key m_created_at ?ms)
          \<and> (\<forall>sc k. 1 \<le> k \<and> (int k - 1) * sz < 2 ^ 63 \<longrightarrow>
                MessageService_get_chat_messages sc db c (int k) sz
                  = Inr (take (nat sz) (drop ((k - 1) * nat sz) (sort_key m_created_at ?ms)),
                         int (length ?ms)))
          \<and> (\<forall>scs. length ?ms \<le> n * nat sz \<and> (int n - 1) * sz < 2 ^ 63 \<longrightarrow>
                concat (message_pages scs db c sz n) = sort_key m_created_at ?ms)"
    if d: "distinct (map m_created_at ?ms)"
  proof (intro conjI allI impI)
    fix sc
    show "messages_of db (c_id c) sc = sort_key m_created_at ?ms"
      by (simp add: messages_of_def order_by_distinct [OF d])
  next
    fix sc :: "message scan" and k :: nat
    assume "1 \<le> k \<and> (int k - 1) * sz < 2 ^ 63"
    then have k: "1 \<le> k" "(int k - 1) * sz < 2 ^ 63" by simp_all
    show "MessageService_get_chat_messages sc db c (int k) sz
                  = Inr (take (nat sz) (drop ((k - 1) * nat sz) (sort_key m_created_at ?ms)),
                         int (length ?ms))"
      by (rule message_page [OF assms k d])
  next
    fix scs :: "nat \<Rightarrow> message scan"
    assume "length ?ms \<le> n * nat sz \<and> (int n - 1) * sz < 2 ^ 63"
    then have a: "length ?ms \<le> n * nat sz" "(int n - 1) * sz < 2 ^ 63" by simp_all
    have "concat (message_pages scs db c sz n) = take (n * nat sz) (sort_key m_created_at ?ms)"
      by (simp only: message_pages_eq [OF assms a(2) d] concat_pages)
    with a(1) show "concat (message_pages scs db c sz n) = sort_key m_created_at ?ms"
      by simp
  qed
  have c: "(\<forall>sc. chats_of db (u_id usr) sc = sort_key (\<lambda>c. - c_updated_at c) ?cs)
          \<and> (\<forall>sc k. 1 \<le> k \<and> (int k - 1) * sz < 2 ^ 63 \<longrightarrow>
                ChatService_get_user_chats sc db usr (int k) sz
                  = Inr (take (nat sz) (drop ((k - 1) * nat sz)
                           (sort_key (\<lambda>c. - c_updated_at c) ?cs)),
                         int (length ?cs)))
          \<and> (\<forall>scs. length ?cs \<le> n * nat sz \<and> (int n - 1) * sz < 2 ^ 63 \<longrightarrow>
                concat (chat_pages scs db usr sz n) = sort_key (\<lambda>c. - c_updated_at c) ?cs)"
    if d: "distinct (map c_updated_at ?cs)"
  proof (intro conjI allI impI)
    fix sc
    from d have "distinct (map (\<lambda>c. - c_updated_at c) ?cs)"
      by (simp only: distinct_map_uminus)
    then show "chats_of db (u_id usr) sc = sort_key (\<lambda>c. - c_updated_at c) ?cs"
      by (simp add: chats_of_def order_by_distinct)
  next
    fix sc :: "chat scan" and k :: nat
    assume "1 \<le> k \<and> (int k - 1) * sz < 2 ^ 63"
    then have k: "1 \<le> k" "(int k - 1) * sz < 2 ^ 63" by simp_all
    show "ChatService_get_user_chats sc db usr (int k) sz
                  = Inr (take (nat sz) (drop ((k - 1) * nat sz)
                           (sort_key (\<lambda>c. - c_updated_at c) ?cs)),
                         int (length ?cs))"
      by (rule chat_page [OF assms k d])
  next
    fix scs :: "nat \<Rightarrow> chat scan"
    assume "length ?cs \<le> n * nat sz \<and> (int n - 1) * sz < 2 ^ 63"
    then have a: "length ?cs \<le> n * nat sz" "(int n - 1) * sz < 2 ^ 63" by simp_all
    have "concat (chat_pages scs db usr sz n)
            = take (n * nat sz) (sort_key (\<lambda>c. - c_updated_at c) ?cs)"
      by (simp only: chat_pages_eq [OF assms a(2) d] concat_pages)
    with a(1) show "concat (chat_pages scs db usr sz n) = sort_key (\<lambda>c. - c_updated_at c) ?cs"
      by simp
  qed
  have m3: "sorted (map m_created_at (sort_key m_created_at ?ms))"
    by simp
  have "sorted (map (\<lambda>c. - c_updated_at c) (sort_key (\<lambda>c. - c_updated_at c) ?cs))"
    by simp
  then have c3: "sorted_wrt (\<lambda>a b. c_updated_at a \<ge> c_updated_at b)
                   (sort_key (\<lambda>c. - c_updated_at c) ?cs)"
    by (simp add: sorted_map)
  have m4: "mset (sort_key m_created_at ?ms)
              = filter_mset (\<lambda>m. m_chat_id m = c_id c) (mset (messages (pending db)))"
    by simp
  have c4: "mset (sort_key (\<lambda>c. - c_updated_at c) ?cs)
              = filter_mset (\<lambda>c. c_user_id c = u_id usr) (mset (chats (pending db)))"
    by simp
  have b: "\<forall>sc sc' k. 2 ^ 63 \<le> (int k - 1) * sz \<longrightarrow>
             MessageService_get_chat_messages sc db c (int k) sz = Inl SQLAlchemyError
           \<and> ChatService_get_user_chats sc' db usr (int k) sz = Inl SQLAlchemyError"
    by (simp add: MessageService_get_chat_messages_def ChatService_get_user_chats_def
          offset_limit_beyond Let_def)
  show ?thesis
    using m c by (intro conjI m3 c3 m4 c4 b) blast+
qed

theorem pages_concat_to_all_witness:
  "(1::int) \<le> 5 \<and> (5::int) \<le> 100
   \<and> distinct (map m_created_at
        (filter (\<lambda>m. m_chat_id m = 2) (messages (pending (SessionLocal db12)))))
   \<and> length (filter (\<lambda>m. m_chat_id m = 2) (messages (pending (SessionLocal db12)))) \<le> 3 * nat 5
   \<and> concat (message_pages (\<lambda>k m. k * m_id m) (SessionLocal db12)
               (chat2\<lparr>c_message_count := 12\<rparr>) 5 3)
       = map nth_msg [0, 1, 2, 3, 4, 5, 6, 7, 8, 9, 10, 11]
   \<and> MessageService_get_chat_messages (\<lambda>m. 1000 - m_id m) (SessionLocal db12)
        (chat2\<lparr>c_message_count := 12\<rparr>) 3 5
       = Inr (map nth_msg [10, 11], 12)
   \<and> distinct (map c_updated_at
        (filter (\<lambda>c. c_user_id c = u_id bob) (chats (pending (SessionLocal db12)))))
   \<and> concat (chat_pages (\<lambda>k c. k) (SessionLocal db12) bob 5 3) = [chat2\<lparr>c_message_count := 12\<rparr>]"
proof -
  let ?c = "chat2\<lparr>c_message_count := 12\<rparr>"
  have a: "(1::int) \<le> 5" "(5::int) \<le> 100" by simp_all
  have f: "filter (\<lambda>m. m_chat_id m = c_id ?c) (messages (pending (SessionLocal db12)))
             = map nth_msg [0, 1, 2, 3, 4, 5, 6, 7, 8, 9, 10, 11]"
    by (simp add: SessionLocal_def db12_def nth_msg_def chat2_def)
  have cid: "c_id ?c = 2" by (simp add: chat2_def)
  have s: "sort_key m_created_at (map nth_msg [0, 1, 2, 3, 4, 5, 6, 7, 8, 9, 10, 11])
             = map nth_msg [0, 1, 2, 3, 4, 5, 6, 7, 8, 9, 10, 11]"
    by (simp add: nth_msg_def)
  have dm: "distinct (map m_created_at
        (filter (\<lambda>m. m_chat_id m = c_id ?c) (messages (pending (SessionLocal db12)))))"
    unfolding f by (simp add: nth_msg_def)
  have g: "filter (\<lambda>c. c_user_id c = u_id bob) (chats (pending (SessionLocal db12))) = [?c]"
    by (simp add: SessionLocal_def db12_def example_defs)
  have dc: "distinct (map c_updated_at
        (filter (\<lambda>c. c_user_id c = u_id bob) (chats (pending (SessionLocal db12)))))"
    unfolding g by simp
  note T = pages_concat_to_all [OF a, of ?c "SessionLocal db12" 3 bob]
  note M = T [THEN conjunct1, rule_format, OF dm]
  note C = T [THEN conjunct2, THEN conjunct2, THEN conjunct2, THEN conjunct1, rule_format, OF dc]
  from M [THEN conjunct2, THEN conjunct2, rule_format, of "\<lambda>k m. k * m_id m"]
  have 1: "concat (message_pages (\<lambda>k m. k * m_id m) (SessionLocal db12) ?c 5 3)
       = map nth_msg [0, 1, 2, 3, 4, 5, 6, 7, 8, 9, 10, 11]"
    unfolding f s by simp
  from M [THEN conjunct2, THEN conjunct1, rule_format, of 3 "\<lambda>m. 1000 - m_id m"]
  have "MessageService_get_chat_messages (\<lambda>m. 1000 - m_id m) (SessionLocal db12) ?c (int 3) 5
       = Inr (take (nat 5) (drop ((3 - 1) * nat 5)
                (map nth_msg [0, 1, 2, 3, 4, 5, 6, 7, 8, 9, 10, 11])), 12)"
    unfolding f s by simp
  then have 2: "MessageService_get_chat_messages (\<lambda>m. 1000 - m_id m) (SessionLocal db12) ?c 3 5
       = Inr (map nth_msg [10, 11], 12)"
    by simp
  from C [THEN conjunct2, THEN conjunct2, rule_format, of "\<lambda>k c. k"]
  have 3: "concat (chat_pages (\<lambda>k c. k) (SessionLocal db12) bob 5 3) = [?c]"
    unfolding g by simp
  have l: "length (filter (\<lambda>m. m_chat_id m = 2) (messages (pending (SessionLocal db12)))) \<le> 3 * nat 5"
    using f unfolding cid by simp
  show ?thesis
    using dm dc unfolding cid by (intro conjI a l 1 2 3)
qed

text \<open>
  The claim as written holds of no chat with two messages of one creation time. The chat
  of \<open>db_tie\<close> has two such messages. With a page size of 1, the query for page 1 meets
  \<open>tie1\<close> first and yields it; the query for page 2 meets \<open>tie2\<close> first and yields
  \<open>tie1\<close> again: the pages in a row hold \<open>tie1\<close> twice and \<open>tie2\<close> not at all.
\<close>

theorem pages_repeat_tied_row_counterexample:
  "filter (\<lambda>m. m_chat_id m = 1) (messages db_tie) = [tie1, tie2]
   \<and> m_created_at tie1 = m_created_at tie2 \<and> tie1 \<noteq> tie2
   \<and> MessageService_get_chat_messages m_id (SessionLocal db_tie)
        (chat1\<lparr>c_message_count := 2\<rparr>) 1 1 = Inr ([tie1], 2)
   \<and> MessageService_get_chat_messages (\<lambda>m. 100 - m_id m) (SessionLocal db_tie)
        (chat1\<lparr>c_message_count := 2\<rparr>) 2 1 = Inr ([tie1], 2)
   \<and> concat (message_pages (\<lambda>k. if k = 1 then m_id else (\<lambda>m. 100 - m_id m))
               (SessionLocal db_tie) (chat1\<lparr>c_message_count := 2\<rparr>) 1 2) = [tie1, tie1]
   \<and> tie2 \<notin> set [tie1, tie1]"
proof -
  have 1: "filter (\<lambda>m. m_chat_id m = 1) (messages db_tie) = [tie1, tie2]"
    "m_created_at tie1 = m_created_at tie2" "tie1 \<noteq> tie2" "tie2 \<notin> set [tie1, tie1]"
    by (simp_all add: db_tie_def tie1_def tie2_def)
  have 2: "MessageService_get_chat_messages m_id (SessionLocal db_tie)
        (chat1\<lparr>c_message_count := 2\<rparr>) 1 1 = Inr ([tie1], 2)"
    by (simp add: MessageService_get_chat_messages_def messages_of_def order_by_def
          offset_limit_def SessionLocal_def db_tie_def tie1_def tie2_def chat1_def Let_def)
  have 3: "MessageService_get_chat_messages (\<lambda>m. 100 - m_id m) (SessionLocal db_tie)
        (chat1\<lparr>c_message_count := 2\<rparr>) 2 1 = Inr ([tie1], 2)"
    by (simp add: MessageService_get_chat_messages_def messages_of_def order_by_def
          offset_limit_def SessionLocal_def db_tie_def tie1_def tie2_def chat1_def Let_def)
  have u: "[1..<Suc 2] = [1, 2]"
    by (simp add: upt_rec)
  have 4: "concat (message_pages (\<lambda>k. if k = 1 then m_id else (\<lambda>m. 100 - m_id m))
               (SessionLocal db_tie) (chat1\<lparr>c_message_count := 2\<rparr>) 1 2) = [tie1, tie1]"
    unfolding message_pages_def u using 2 3 by simp
  show ?thesis by (intro conjI 1 2 3 4)
qed


section \<open>Page counts\<close>

text \<open>
  The rounding of \<open>total / page_size\<close> to a double cannot move the ceiling while the total
  is at most \<open>2 ^ 53\<close>: an integer quotient is a double, and any other quotient keeps a
  distance of \<open>1 / page_size\<close> from the integers, more than half a unit in the last place.
\<close>

lemma bit_length_bounds:
  "0 < n \<Longrightarrow> 0 < bit_length n \<and> 2 ^ (bit_length n - 1) \<le> n \<and> n < 2 ^ bit_length n"
proof (induction n rule: bit_length.induct)
  case (1 n)
  show ?case
  proof (cases "n div 2 = 0")
    case True
    with 1 have "n = 1" by (simp add: div_eq_0_iff) 
    then show ?thesis by (simp add: bit_length.simps)
  next
    case False
    with 1 have IH: "0 < bit_length (n div 2)" "2 ^ (bit_length (n div 2) - 1) \<le> n div 2"
      "n div 2 < 2 ^ bit_length (n div 2)"
      by simp_all
    have bl: "bit_length n = Suc (bit_length (n div 2))"
      using 1(2) by (subst bit_length.simps) simp
    from IH(1) obtain k where k: "bit_length (n div 2) = Suc k"
      by (cases "bit_length (n div 2)") simp_all
    from IH(2,3) show ?thesis
      by (simp add: bl k) linarith
  qed
qed

lemma bit_length_le: "n < 2 ^ k \<Longrightarrow> bit_length n \<le> k"
proof (cases "n = 0")
  case True then show ?thesis by (simp add: bit_length.simps)
next
  case False
  assume "n < 2 ^ k"
  with False bit_length_bounds [of n] have "(2::nat) ^ (bit_length n - 1) < 2 ^ k"
    by linarith
  then have "bit_length n - 1 < k" by simp
  with False bit_length_bounds [of n] show ?thesis by simp
qed

lemma pow2_powi: "pow2 k = 2 powi k"
  by (simp add: pow2_def power_int_def field_simps)

lemma round_half_even_of_int: "round_half_even (of_int k) = k"
  by (simp add: round_half_even_def)

lemma round_half_even_error: "\<bar>of_int (round_half_even y) - y\<bar> \<le> 1 / 2"
proof -
  have "0 \<le> y - of_int \<lfloor>y\<rfloor>" "y - of_int \<lfloor>y\<rfloor> < 1"
    by linarith+
  then show ?thesis
    by (auto simp: round_half_even_def Let_def)
qed

lemma pow2_pos: "0 < pow2 k"
  by (simp add: pow2_powi zero_less_power_int)

lemma pow2_diff: "pow2 (int i - int j) = 2 ^ i / 2 ^ j"
  by (simp add: pow2_powi power_int_diff)

lemma pow2_pred: "pow2 (k - 1) = pow2 k / 2"
  by (simp add: pow2_powi power_int_diff)

lemma pow2_mono: "j \<le> k \<Longrightarrow> pow2 j \<le> pow2 k"
  by (simp add: pow2_powi power_int_increasing)

lemma binary_exponent_le:
  assumes "0 < a" "0 < b"
  shows "pow2 (binary_exponent a b) \<le> of_nat a / of_nat b"
proof -
  let ?d = "int (bit_length a) - int (bit_length b)"
  show ?thesis
  proof (cases "of_nat b * pow2 ?d \<le> (of_nat a :: rat)")
    case True
    then have "pow2 ?d \<le> of_nat a / of_nat b"
      using assms by (simp add: field_simps)
    with True show ?thesis by (simp add: binary_exponent_def)
  next
    case False
    from bit_length_bounds [OF assms(1)] obtain la where
      la: "bit_length a = Suc la" "2 ^ la \<le> a"
      by (cases "bit_length a") auto
    from bit_length_bounds [OF assms(2)] have b: "b < 2 ^ bit_length b" by simp
    have "pow2 (?d - 1) = 2 ^ la / 2 ^ bit_length b"
      using pow2_diff [of la "bit_length b"] by (simp add: la)
    also have "\<dots> \<le> of_nat a / 2 ^ bit_length b"
    proof -
      from la(2) have "(of_nat (2 ^ la) :: rat) \<le> of_nat a"
        by (simp only: of_nat_le_iff)
      then have "(2 :: rat) ^ la \<le> of_nat a" by simp
      then show ?thesis by (intro divide_right_mono) simp_all
    qed
    also have "\<dots> \<le> of_nat a / of_nat b"
    proof -
      from b have "(of_nat b :: rat) \<le> of_nat (2 ^ bit_length b)"
        by (simp only: of_nat_le_iff less_imp_le)
      then have "(of_nat b :: rat) \<le> 2 ^ bit_length b" by simp
      then show ?thesis
        using assms by (intro divide_left_mono) simp_all
    qed
    finally show ?thesis
      using False by (simp add: binary_exponent_def)
  qed
qed

lemma binary_exponent_ge:
  assumes "0 < a" "b < 2 ^ k"
  shows "- int k \<le> binary_exponent a b"
proof -
  from bit_length_bounds [OF assms(1)] have "1 \<le> int (bit_length a)" by simp
  moreover from bit_length_le [OF assms(2)] have "int (bit_length b) \<le> int k" by simp
  ultimately show ?thesis
    by (simp add: binary_exponent_def Let_def)
qed

lemma pow2_nonpos: "k \<le> 0 \<Longrightarrow> pow2 k = 1 / 2 ^ nat (- k)"
  by (cases "k = 0") (simp_all add: pow2_def)

lemma pow2_nat: "pow2 (int k) = 2 ^ k"
  by (simp add: pow2_def)

lemma pow2_le_D: "pow2 j \<le> pow2 (int k) \<Longrightarrow> j \<le> int k"
  using power_int_le_imp_le_exp [of "2::rat" j "int k"] by (simp add: pow2_powi)

lemma abs_scale:
  fixes r q u :: rat
  assumes "0 < u"
  shows "\<bar>r * u - q\<bar> = \<bar>r - q / u\<bar> * u"
proof -
  from assms have "r * u - q = (r - q / u) * u"
    by (simp add: field_simps)
  then have "\<bar>r * u - q\<bar> = \<bar>r - q / u\<bar> * \<bar>u\<bar>"
    by (simp only: abs_mult)
  with assms show ?thesis by simp
qed

text \<open>The error of rounding to the nearest double, for a quotient in the normal range.\<close>

lemma nearest_double_error:
  assumes "0 < a" "0 < b" "b \<le> 100"
  shows "nearest_double a b
           = of_int (round_half_even (of_nat a / of_nat b / pow2 (binary_exponent a b - 52)))
             * pow2 (binary_exponent a b - 52)"
    and "\<bar>nearest_double a b - of_nat a / of_nat b\<bar> \<le> pow2 (binary_exponent a b) / 2 ^ 53"
proof -
  let ?e = "binary_exponent a b"
  let ?u = "pow2 (?e - 52)"
  let ?q = "of_nat a / of_nat b :: rat"
  from assms have "b < 2 ^ 7" by simp
  from binary_exponent_ge [OF assms(1) this] have "- 1074 \<le> ?e - 52" by simp
  then have m: "max (?e - 52) (- 1074) = ?e - 52" by simp
  show x: "nearest_double a b = of_int (round_half_even (?q / ?u)) * ?u"
    by (simp only: nearest_double_def Let_def m)
  have u: "0 < ?u" by (rule pow2_pos)
  have "\<bar>of_int (round_half_even (?q / ?u)) * ?u - ?q\<bar>
          = \<bar>of_int (round_half_even (?q / ?u)) - ?q / ?u\<bar> * ?u"
    using u by (rule abs_scale)
  also have "\<dots> \<le> 1 / 2 * ?u"
    using u round_half_even_error [of "?q / ?u"] by (intro mult_right_mono) simp_all
  also have "1 / 2 * ?u = pow2 ?e / 2 ^ 53"
    using pow2_powi [of "?e - 52"] pow2_powi [of ?e]
    by (simp add: power_int_diff)
  finally show "\<bar>nearest_double a b - ?q\<bar> \<le> pow2 ?e / 2 ^ 53"
    by (simp only: x)
qed

lemma quotient_above:
  fixes A N B :: rat
  assumes "0 < B" "(N - 1) * B + 1 \<le> A"
  shows "N - 1 + 1 / B \<le> A / B"
proof -
  from assms(1) have "(N - 1 + 1 / B) * B = (N - 1) * B + 1"
    by (simp add: algebra_simps)
  with assms(2) have "(N - 1 + 1 / B) * B \<le> A" by simp
  with assms(1) show ?thesis by (simp only: pos_le_divide_eq)
qed

lemma quotient_below:
  fixes A N B :: rat
  assumes "0 < B" "A + 1 \<le> N * B"
  shows "A / B \<le> N - 1 / B"
proof -
  from assms(1) have "(N - 1 / B) * B = N * B - 1"
    by (simp add: algebra_simps)
  with assms(2) have "A \<le> (N - 1 / B) * B" by simp
  with assms(1) show ?thesis by (simp only: pos_divide_le_eq)
qed

lemma nearest_double_ceiling:
  assumes a: "0 < a" "a \<le> 2 ^ 53" and b: "0 < b" "b \<le> 100"
  shows "\<lceil>nearest_double a b\<rceil> = \<lceil>of_nat a / of_nat b :: rat\<rceil>
       \<and> nearest_double a b \<le> 2 ^ 53 + 1"
proof -
  let ?e = "binary_exponent a b"
  let ?u = "pow2 (?e - 52)"
  let ?q = "of_nat a / of_nat b :: rat"
  let ?x = "nearest_double a b"
  note E = nearest_double_error [OF a(1) b]
  have el: "pow2 ?e \<le> ?q"
    by (rule binary_exponent_le [OF a(1) b(1)])
  have a53: "(of_nat a :: rat) \<le> 2 ^ 53"
  proof -
    from a(2) have "(of_nat a :: rat) \<le> of_nat (2 ^ 53)" by (simp only: of_nat_le_iff)
    then show ?thesis by simp
  qed
  have b1: "(1 :: rat) \<le> of_nat b" using b(1) by simp
  have qa: "?q \<le> of_nat a"
    using b1 by (simp add: field_simps mult_le_cancel_left1)
  have q53: "?q \<le> 2 ^ 53" using qa a53 by linarith
  show ?thesis
  proof (cases "b dvd a")
    case True
    then obtain m where m: "a = b * m" by (auto simp: dvd_def)
    then have q: "?q = of_nat m" using b(1) by simp
    have "\<exists>k. ?q / ?u = of_int k"
    proof (cases "?e \<le> 52")
      case True
      then have "?u = 1 / 2 ^ nat (52 - ?e)"
        using pow2_nonpos [of "?e - 52"] by simp
      then have "?q / ?u = of_int (int m * 2 ^ nat (52 - ?e))"
        by (simp add: q)
      then show ?thesis by blast
    next
      case False
      from el q53 have "pow2 ?e \<le> 2 ^ 53" by linarith
      then have "pow2 ?e \<le> pow2 (int 53)" by (simp only: pow2_nat)
      then have "?e \<le> 53" using pow2_le_D [of ?e 53] by simp
      with False have e: "?e = 53" by simp
      with el have "(2::rat) ^ 53 \<le> ?q" using pow2_nat [of 53] by simp
      with q53 have "?q = 2 ^ 53" by simp
      moreover have "?u = 2" using pow2_nat [of 1] by (simp add: e)
      ultimately have "?q / ?u = of_int (2 ^ 52)" by simp
      then show ?thesis by blast
    qed
    then obtain k where k: "?q / ?u = of_int k" by blast
    have "?x = of_int k * ?u"
      by (simp only: E(1) k round_half_even_of_int)
    also have "\<dots> = ?q / ?u * ?u"
      by (simp only: k)
    also have "\<dots> = ?q"
      using pow2_pos [of "?e - 52"] by simp
    finally have "?x = ?q" .
    with q53 show ?thesis by simp
  next
    case False
    define n where "n = \<lceil>?q\<rceil>"
    have bq: "?q * of_nat b = of_nat a" using b(1) by simp
    have c1: "of_int n - 1 < ?q" and c2: "?q \<le> of_int n"
      unfolding n_def by linarith+
    have bpos: "(0 :: rat) < of_nat b" using b(1) by simp
    from c1 have "(of_int n - 1) * of_nat b < ?q * of_nat b"
      using bpos by (simp only: mult_less_cancel_right_pos)
    then have "(of_int ((n - 1) * int b) :: rat) < of_int (int a)"
      by (simp only: bq) simp
    then have i1: "(n - 1) * int b < int a"
      by (simp only: of_int_less_iff)
    from c2 have "?q * of_nat b \<le> of_int n * of_nat b"
      using bpos by (simp only: mult_le_cancel_right_pos)
    then have "(of_int (int a) :: rat) \<le> of_int (n * int b)"
      by (simp only: bq) simp
    then have i2: "int a \<le> n * int b"
      by (simp only: of_int_le_iff)
    have "int a \<noteq> n * int b"
    proof
      assume "int a = n * int b"
      then have "int b dvd int a" by simp
      with False show False by (simp only: int_dvd_int_iff)
    qed
    with i2 have i2': "int a + 1 \<le> n * int b" by simp
    from i1 have i1': "(n - 1) * int b + 1 \<le> int a" by simp
    have lo: "of_int n - 1 + 1 / of_nat b \<le> ?q"
    proof -
      from i1' have "(of_int ((n - 1) * int b + 1) :: rat) \<le> of_int (int a)"
        by (simp only: of_int_le_iff)
      then have "(of_int n - 1) * of_nat b + 1 \<le> (of_nat a :: rat)" by simp
      then show ?thesis using bpos by (intro quotient_above)
    qed
    have hi: "?q \<le> of_int n - 1 / of_nat b"
    proof -
      from i2' have "(of_int (int a + 1) :: rat) \<le> of_int (n * int b)"
        by (simp only: of_int_le_iff)
      then have "(of_nat a :: rat) + 1 \<le> of_int n * of_nat b" by simp
      then show ?thesis using bpos by (intro quotient_below)
    qed
    have delta: "pow2 ?e / 2 ^ 53 < 1 / of_nat b"
    proof (cases "a < 2 ^ 53")
      case True
      then have "(of_nat a :: rat) < of_nat (2 ^ 53)" by (simp only: of_nat_less_iff)
      then have "(of_nat a :: rat) < 2 ^ 53" by simp
      then have "?q / 2 ^ 53 < 1 / of_nat b"
        using bpos by (simp add: field_simps)
      moreover from el have "pow2 ?e / 2 ^ 53 \<le> ?q / 2 ^ 53"
        by (intro divide_right_mono) simp_all
      ultimately show ?thesis by linarith
    next
      case False
      with a(2) have a': "a = 2 ^ 53" by simp
      then have qv: "?q = 2 ^ 53 / of_nat b" by simp
      have "pow2 ?e < ?q"
      proof (cases "0 \<le> ?e")
        case True
        have "pow2 ?e \<noteq> ?q"
        proof
          assume eq: "pow2 ?e = ?q"
          from True have "pow2 ?e = of_nat (2 ^ nat ?e)"
            using pow2_nat [of "nat ?e"] by simp
          with eq bq have "(of_nat (2 ^ nat ?e * b) :: rat) = of_nat a"
            by simp
          then have "2 ^ nat ?e * b = a" by (simp only: of_nat_eq_iff)
          then have "b dvd a" by (metis dvd_triv_right)
          with \<open>\<not> b dvd a\<close> show False ..
        qed
        with el show ?thesis by simp
      next
        case False
        then have "pow2 ?e \<le> pow2 0" by (intro pow2_mono) simp
        then have "pow2 ?e \<le> 1" by (simp add: pow2_def)
        moreover have "(1::rat) < ?q"
        proof -
          from b(2) have "(of_nat b :: rat) \<le> of_nat 100" by (simp only: of_nat_le_iff)
          then have "(of_nat b :: rat) \<le> 100" by simp
          then show ?thesis using bpos by (simp add: qv a' field_simps)
        qed
        ultimately show ?thesis by linarith
      qed
      then have "pow2 ?e / 2 ^ 53 < ?q / 2 ^ 53"
        by (intro divide_strict_right_mono) simp_all
      also have "\<dots> = 1 / of_nat b"
        by (simp add: qv)
      finally show ?thesis .
    qed
    from E(2) delta have "\<bar>?x - ?q\<bar> < 1 / of_nat b" by linarith
    with lo hi have x1: "of_int n - 1 < ?x" and x2: "?x < of_int n"
      by linarith+
    then have "\<lceil>?x\<rceil> = n"
      by (intro ceiling_unique) simp_all
    moreover have "?x \<le> 2 ^ 53 + 1"
    proof -
      have "(1 :: rat) / of_nat b \<le> 1" using b1 by simp
      with \<open>\<bar>?x - ?q\<bar> < 1 / of_nat b\<close> q53 show ?thesis by linarith
    qed
    ultimately show ?thesis by (simp add: n_def)
  qed
qed


lemma total_pages_exact:
  assumes "0 \<le> n" "n \<le> 2 ^ 53" "1 \<le> sz" "sz \<le> 100"
  shows "total_pages n sz = Inr (if n = 0 then 0 else \<lceil>of_int n / of_int sz :: rat\<rceil>)"
proof (cases "n = 0")
  case True
  then show ?thesis by (simp add: total_pages_def)
next
  case False
  with assms(1) have pos: "0 < n" by simp
  have na: "0 < nat \<bar>n\<bar>" "nat \<bar>n\<bar> \<le> 2 ^ 53" "0 < nat \<bar>sz\<bar>" "nat \<bar>sz\<bar> \<le> 100"
    using assms pos by (simp_all add: nat_le_iff)
  note C = nearest_double_ceiling [OF na]
  have q: "(of_nat (nat \<bar>n\<bar>) / of_nat (nat \<bar>sz\<bar>) :: rat) = of_int n / of_int sz"
    using assms pos by simp
  have "(2 :: rat) ^ 53 + 1 < 2 ^ 1024" by simp
  then have "nearest_double (nat \<bar>n\<bar>) (nat \<bar>sz\<bar>) < pow2 1024"
    using C by (simp add: pow2_def)
  then have "truediv n sz = Inr (nearest_double (nat \<bar>n\<bar>) (nat \<bar>sz\<bar>))"
    using assms pos by (simp add: truediv_def Let_def)
  with C q pos show ?thesis
    by (simp add: total_pages_def math_ceil_def)
qed

lemma offset_limit_in_range:
  assumes "valid_paging pg sz" "(pg - 1) * sz < 2 ^ 63"
  shows "offset_limit ((pg - 1) * sz) sz xs = Inr (take (nat sz) (drop (nat ((pg - 1) * sz)) xs))"
proof -
  from assms(1) have v: "1 \<le> pg" "1 \<le> sz" "sz \<le> 100"
    by (simp_all add: valid_paging_def)
  then have "0 \<le> (pg - 1) * sz" by (intro mult_nonneg_nonneg) auto
  moreover have "sz < 2 ^ 63" using v(3) by simp
  ultimately have "\<not> ((pg - 1) * sz < 0 \<or> sz < 0 \<or> 2 ^ 63 \<le> (pg - 1) * sz \<or> 2 ^ 63 \<le> sz)"
    using v assms(2) by linarith
  then show ?thesis
    by (simp only: offset_limit_def if_False)
qed

text \<open>The response of a list endpoint whose request is valid, for a total of at most \<open>2 ^ 53\<close>.\<close>

lemma ListResponse_of_eq:
  assumes "valid_paging pg sz" "0 \<le> n" "n \<le> 2 ^ 53"
  shows "ListResponse_of pg sz (case q of Inl err \<Rightarrow> Inl err | Inr rows \<Rightarrow> Inr (rows, n))
           = (case q of
                Inl err \<Rightarrow> Inl err
              | Inr rows \<Rightarrow>
                  Inr \<lparr>lr_items = rows, lr_total = n, lr_page = pg, lr_page_size = sz,
                       lr_total_pages = (if n = 0 then 0 else \<lceil>of_int n / of_int sz :: rat\<rceil>)\<rparr>)"
proof -
  from assms(1) have v: "1 \<le> sz" "sz \<le> 100"
    by (simp_all add: valid_paging_def)
  note total_pages_exact [OF assms(2,3) v]
  then show ?thesis
    by (cases q) (simp_all add: ListResponse_of_def)
qed

lemma storable_counts:
  assumes "storable d"
  shows "int (length (filter P (chats d))) \<le> 2 ^ 53"
    and "int (length (filter Q (messages d))) \<le> 2 ^ 53"
proof -
  have le: "(2 :: nat) ^ 43 \<le> 2 ^ 53"
    by (rule power_increasing) simp_all
  from assms have "length (chats d) < 2 ^ 43" "length (messages d) < 2 ^ 43"
    by (simp_all add: storable_def)
  with le have "length (filter P (chats d)) \<le> 2 ^ 53" "length (filter Q (messages d)) \<le> 2 ^ 53"
    using length_filter_le [of P "chats d"] length_filter_le [of Q "messages d"]
    by linarith+
  then have "int (length (filter P (chats d))) \<le> int (2 ^ 53)"
    "int (length (filter Q (messages d))) \<le> int (2 ^ 53)"
    by (simp_all only: of_nat_le_iff)
  then show "int (length (filter P (chats d))) \<le> 2 ^ 53"
    and "int (length (filter Q (messages d))) \<le> 2 ^ 53"
    by simp_all
qed

text \<open>
  Claim C7. In a database that the store can hold, whatever \<open>list_chats\<close> answers
  carries the number of the user's chats as its total, and as its page count \<open>0\<close> when
  that total is \<open>0\<close> and the ceiling of \<open>total / page_size\<close> otherwise; it answers
  whenever the page is at least 1, the page size lies in \<open>[1, 100]\<close> and the offset
  \<open>(page - 1) * page_size\<close> is below \<open>2 ^ 63\<close>. The same holds of \<open>list_messages\<close> and
  the number of the chat's messages, for a chat of the caller's.
\<close>

theorem list_total_pages:
  assumes "storable d"
  shows "(\<forall>r. get_user_chats sc d pg sz usr = Inr r \<longrightarrow>
            lr_total r = int (length (filter (\<lambda>c. c_user_id c = u_id usr) (chats d)))
          \<and> lr_total_pages r
              = (if lr_total r = 0 then 0 else \<lceil>of_int (lr_total r) / of_int sz :: rat\<rceil>))
       \<and> (valid_paging pg sz \<and> (pg - 1) * sz < 2 ^ 63 \<longrightarrow>
            (\<exists>r. get_user_chats sc d pg sz usr = Inr r))
       \<and> (\<forall>r. get_chat_messages sc' d chat_id pg sz usr = Inr r \<longrightarrow>
            lr_total r = int (length (filter (\<lambda>m. m_chat_id m = chat_id) (messages d)))
          \<and> lr_total_pages r
              = (if lr_total r = 0 then 0 else \<lceil>of_int (lr_total r) / of_int sz :: rat\<rceil>))
       \<and> (valid_paging pg sz \<and> (pg - 1) * sz < 2 ^ 63
            \<and> (\<exists>c. ChatService_get_chat_by_id (SessionLocal d) chat_id usr = Inr c) \<longrightarrow>
            (\<exists>r. get_chat_messages sc' d chat_id pg sz usr = Inr r))"
proof -
  let ?n = "int (length (filter (\<lambda>c. c_user_id c = u_id usr) (chats d)))"
  let ?m = "int (length (filter (\<lambda>m. m_chat_id m = chat_id) (messages d)))"
  let ?cq = "offset_limit ((pg - 1) * sz) sz (chats_of (SessionLocal d) (u_id usr) sc)"
  let ?mq = "offset_limit ((pg - 1) * sz) sz (messages_of (SessionLocal d) chat_id sc')"
  note le = storable_counts [OF assms]
  have chats: "get_user_chats sc d pg sz usr
                 = (case ?cq of
                      Inl err \<Rightarrow> Inl err
                    | Inr rows \<Rightarrow>
                        Inr \<lparr>lr_items = rows, lr_total = ?n, lr_page = pg, lr_page_size = sz,
                             lr_total_pages
                               = (if ?n = 0 then 0 else \<lceil>of_int ?n / of_int sz :: rat\<rceil>)\<rparr>)"
    if v: "valid_paging pg sz"
  proof -
    have "ChatService_get_user_chats sc (SessionLocal d) usr pg sz
            = (case ?cq of Inl err \<Rightarrow> Inl err | Inr rows \<Rightarrow> Inr (rows, ?n))"
      by (simp add: ChatService_get_user_chats_def SessionLocal_def Let_def)
    then show ?thesis
      using v ListResponse_of_eq [OF v _ le(1), of "\<lambda>c. c_user_id c = u_id usr" ?cq]
      by (simp add: get_user_chats_def)
  qed
  have msgs: "get_chat_messages sc' d chat_id pg sz usr
                 = (case ?mq of
                      Inl err \<Rightarrow> Inl err
                    | Inr rows \<Rightarrow>
                        Inr \<lparr>lr_items = rows, lr_total = ?m, lr_page = pg, lr_page_size = sz,
                             lr_total_pages
                               = (if ?m = 0 then 0 else \<lceil>of_int ?m / of_int sz :: rat\<rceil>)\<rparr>)"
    if v: "valid_paging pg sz"
      and c: "ChatService_get_chat_by_id (SessionLocal d) chat_id usr = Inr c" for c
  proof -
    from c have cid: "c_id c = chat_id" using get_chat_by_id_Inr by blast
    have "MessageService_get_chat_messages sc' (SessionLocal d) c pg sz
            = (case ?mq of Inl err \<Rightarrow> Inl err | Inr rows \<Rightarrow> Inr (rows, ?m))"
      by (simp add: MessageService_get_chat_messages_def SessionLocal_def Let_def cid)
    then show ?thesis
      using v c ListResponse_of_eq [OF v _ le(2), of "\<lambda>m. m_chat_id m = chat_id" ?mq]
      by (simp add: get_chat_messages_def Let_def)
  qed
  have 1: "lr_total r = ?n
          \<and> lr_total_pages r
              = (if lr_total r = 0 then 0 else \<lceil>of_int (lr_total r) / of_int sz :: rat\<rceil>)"
    if r: "get_user_chats sc d pg sz usr = Inr r" for r
  proof -
    from r have v: "valid_paging pg sz"
      by (cases "valid_paging pg sz") (simp_all add: get_user_chats_def)
    from r chats [OF v] show ?thesis
      by (cases ?cq) auto
  qed
  have 2: "\<exists>r. get_user_chats sc d pg sz usr = Inr r"
    if "valid_paging pg sz \<and> (pg - 1) * sz < 2 ^ 63"
    using that chats offset_limit_in_range [of pg sz "chats_of (SessionLocal d) (u_id usr) sc"]
    by simp
  have 3: "lr_total r = ?m
          \<and> lr_total_pages r
              = (if lr_total r = 0 then 0 else \<lceil>of_int (lr_total r) / of_int sz :: rat\<rceil>)"
    if r: "get_chat_messages sc' d chat_id pg sz usr = Inr r" for r
  proof -
    from r have v: "valid_paging pg sz"
      by (cases "valid_paging pg sz") (simp_all add: get_chat_messages_def)
    from r v obtain c where c: "ChatService_get_chat_by_id (SessionLocal d) chat_id usr = Inr c"
      by (cases "ChatService_get_chat_by_id (SessionLocal d) chat_id usr")
         (simp_all add: get_chat_messages_def Let_def)
    from r msgs [OF v c] show ?thesis
      by (cases ?mq) auto
  qed
  have 4: "\<exists>r. get_chat_messages sc' d chat_id pg sz usr = Inr r"
    if "valid_paging pg sz \<and> (pg - 1) * sz < 2 ^ 63
            \<and> (\<exists>c. ChatService_get_chat_by_id (SessionLocal d) chat_id usr = Inr c)"
  proof -
    from that obtain c where v: "valid_paging pg sz" and o: "(pg - 1) * sz < 2 ^ 63"
      and c: "ChatService_get_chat_by_id (SessionLocal d) chat_id usr = Inr c"
      by blast
    show ?thesis
      using msgs [OF v c]
        offset_limit_in_range [OF v o, of "messages_of (SessionLocal d) chat_id sc'"]
      by simp
  qed
  show ?thesis
    using 1 2 3 4 by blast
qed

theorem list_total_pages_witness:
  "storable db12 \<and> valid_paging 1 5 \<and> ((1 :: int) - 1) * 5 < 2 ^ 63
   \<and> (\<exists>r. get_user_chats c_id db12 1 5 bob = Inr r \<and> lr_total r = 1 \<and> lr_total_pages r = 1)
   \<and> ChatService_get_chat_by_id (SessionLocal db12) 2 bob = Inr (chat2\<lparr>c_message_count := 12\<rparr>)
   \<and> (\<exists>r. get_chat_messages m_id db12 2 1 5 bob = Inr r \<and> lr_total r = 12
          \<and> lr_total_pages r = 3)
   \<and> (\<exists>r. get_chat_messages m_id db0 2 1 5 bob = Inr r \<and> lr_total r = 0
          \<and> lr_total_pages r = 0)"
proof -
  have s: "storable db12" "storable db0"
    by (simp_all add: storable_def db12_def db0_def)
  have v: "valid_paging 1 5" by (simp add: valid_paging_def)
  have o: "((1 :: int) - 1) * 5 < 2 ^ 63" by simp
  have c: "ChatService_get_chat_by_id (SessionLocal db12) 2 bob = Inr (chat2\<lparr>c_message_count := 12\<rparr>)"
    by (simp add: ChatService_get_chat_by_id_def SessionLocal_def db12_def example_defs)
  have c0: "ChatService_get_chat_by_id (SessionLocal db0) 2 bob = Inr chat2"
    by (simp add: ChatService_get_chat_by_id_def SessionLocal_def example_defs)
  have n1: "int (length (filter (\<lambda>c. c_user_id c = u_id bob) (chats db12))) = 1"
    by (simp add: db12_def example_defs)
  have n2: "int (length (filter (\<lambda>m. m_chat_id m = 2) (messages db12))) = 12"
    by (simp add: db12_def nth_msg_def)
  have n3: "int (length (filter (\<lambda>m. m_chat_id m = 2) (messages db0))) = 0"
    by (simp add: db0_def)
  have q: "\<lceil>(12 :: rat) / 5\<rceil> = 3" "\<lceil>(1 :: rat) / 5\<rceil> = 1"
    by (simp_all add: ceiling_eq_iff)
  note T = list_total_pages [OF s(1), of c_id 1 5 bob m_id 2]
  note T0 = list_total_pages [OF s(2), of c_id 1 5 bob m_id 2]
  from T [THEN conjunct2, THEN conjunct1] v o
  obtain r1 where r1: "get_user_chats c_id db12 1 5 bob = Inr r1" by blast
  from T [THEN conjunct1, rule_format, OF r1] n1
  have "lr_total r1 = 1 \<and> lr_total_pages r1 = 1"
    by (simp add: q)
  with r1 have 1: "\<exists>r. get_user_chats c_id db12 1 5 bob = Inr r \<and> lr_total r = 1
                     \<and> lr_total_pages r = 1"
    by blast
  from T [THEN conjunct2, THEN conjunct2, THEN conjunct2] v o c
  obtain r2 where r2: "get_chat_messages m_id db12 2 1 5 bob = Inr r2" by blast
  from T [THEN conjunct2, THEN conjunct2, THEN conjunct1, rule_format, OF r2] n2
  have "lr_total r2 = 12 \<and> lr_total_pages r2 = 3"
    by (simp add: q)
  with r2 have 2: "\<exists>r. get_chat_messages m_id db12 2 1 5 bob = Inr r \<and> lr_total r = 12
          \<and> lr_total_pages r = 3"
    by blast
  from T0 [THEN conjunct2, THEN conjunct2, THEN conjunct2] v o c0
  obtain r3 where r3: "get_chat_messages m_id db0 2 1 5 bob = Inr r3" by blast
  from T0 [THEN conjunct2, THEN conjunct2, THEN conjunct1, rule_format, OF r3] n3
  have "lr_total r3 = 0 \<and> lr_total_pages r3 = 0"
    by simp
  with r3 have 3: "\<exists>r. get_chat_messages m_id db0 2 1 5 bob = Inr r \<and> lr_total r = 0
          \<and> lr_total_pages r = 0"
    by blast
  show ?thesis by (intro conjI s(1) v o c 1 2 3)
qed

text \<open>
  The bound on the tables is what the result rests on: \<open>math.ceil(total / page_size)\<close>
  rounds the quotient to a double before it takes the ceiling. At a total of
  \<open>2 ^ 53 + 1\<close>, more rows than a table can hold, and a page size of \<open>1\<close> the quotient
  is not a double and is rounded to \<open>2 ^ 53\<close>.
\<close>

lemma bit_length_eq: "2 ^ k \<le> n \<Longrightarrow> n < 2 ^ Suc k \<Longrightarrow> bit_length n = Suc k"
proof -
  assume a: "2 ^ k \<le> n" "n < 2 ^ Suc k"
  then have "0 < n" by (cases "n = 0") simp_all
  from bit_length_bounds [OF this] have "2 ^ (bit_length n - 1) \<le> n" "n < 2 ^ bit_length n"
    "0 < bit_length n" by simp_all
  with a have "(2::nat) ^ k < 2 ^ bit_length n" "(2::nat) ^ (bit_length n - 1) < 2 ^ Suc k"
    by linarith+
  then have "k < bit_length n" "bit_length n - 1 < Suc k"
    using power_less_imp_less_exp [of "2::nat" k "bit_length n"]
      power_less_imp_less_exp [of "2::nat" "bit_length n - 1" "Suc k"]
    by linarith+
  then show ?thesis by linarith
qed

lemma bit_length_big: "bit_length 9007199254740993 = 54"
  using bit_length_eq [of 53 9007199254740993] by simp

lemma bit_length_one: "bit_length (Suc 0) = 1"
  using bit_length_eq [of 0 1] by simp

lemma binary_exponent_big: "binary_exponent 9007199254740993 (Suc 0) = 53"
  by (simp add: binary_exponent_def bit_length_big bit_length_one pow2_def)

lemma floor_half_big: "\<lfloor>(9007199254740993 :: rat) / 2\<rfloor> = 4503599627370496"
  by (simp add: floor_eq_iff)

lemma round_half_even_big: "round_half_even (9007199254740993 / 2) = 4503599627370496"
  by (simp add: round_half_even_def Let_def floor_half_big)

lemma nearest_double_big: "nearest_double 9007199254740993 (Suc 0) = 9007199254740992"
  by (simp add: nearest_double_def binary_exponent_big pow2_def round_half_even_big)

lemma below_overflow: "\<not> pow2 1024 \<le> 9007199254740992"
proof -
  have "(9007199254740992 :: rat) = 2 ^ 53" by simp
  moreover have "pow2 1024 = 2 ^ 1024" using pow2_nat [of 1024] by simp
  moreover have "(2 :: rat) ^ 53 < 2 ^ 1024" by (rule power_strict_increasing) simp_all
  ultimately show ?thesis by (simp only: not_le)
qed

lemma truediv_big: "truediv 9007199254740993 1 = Inr 9007199254740992"
  by (simp add: truediv_def Let_def nearest_double_big below_overflow)

lemma total_pages_beyond_doubles:
  "total_pages 9007199254740993 1 = Inr 9007199254740992"
  by (simp add: total_pages_def truediv_big math_ceil_def)


end
